theory Spec2Isabelle
  imports Complex_Main "HOL-Library.AList"
begin

section \<open>Strings of the response text\<close>

text \<open>
  The normalizer \<^verbatim>\<open>parseGeminiResponse\<close> (Gemini service) works on one JavaScript string.
  A string is modelled as a \<^typ>\<open>string\<close>, a list of code units; the code units are the
  256 values of \<^typ>\<open>char\<close>, read as the code units U+0000 .. U+00FF.
\<close>

text \<open>White space of \<^verbatim>\<open>\s\<close> and of \<^verbatim>\<open>String.prototype.trim\<close>: TAB, LF, VT, FF, CR, SP, NBSP.\<close>

definition isSpace :: "char \<Rightarrow> bool" where
  "isSpace c = (c \<in> set [CHR 0x09, CHR 0x0A, CHR 0x0B, CHR 0x0C, CHR 0x0D, CHR 0x20, CHR 0xA0])"

text \<open>The class \<^verbatim>\<open>\d\<close>.\<close>

definition isDigit :: "char \<Rightarrow> bool" where
  "isDigit c = (c \<in> set ''0123456789'')"

definition digitVal :: "char \<Rightarrow> nat" where
  "digitVal c = of_char c - 48"

text \<open>
  \<^verbatim>\<open>toLowerCase\<close> on one code unit, and the case folding of the \<^verbatim>\<open>i\<close> flag (the
  upper case of the code unit; U+00FF and U+00B5, whose upper case lies above U+00FF,
  and U+00DF are left as they are, which keeps the same pairs of code units equal).
\<close>

definition lowerChar :: "char \<Rightarrow> char" where
  "lowerChar c = (let n = (of_char c :: nat) in
     if (65 \<le> n \<and> n \<le> 90) \<or> (192 \<le> n \<and> n \<le> 222 \<and> n \<noteq> 215) then char_of (n + 32) else c)"

definition canonicalize :: "char \<Rightarrow> char" where
  "canonicalize c = (let n = (of_char c :: nat) in
     if (97 \<le> n \<and> n \<le> 122) \<or> (224 \<le> n \<and> n \<le> 254 \<and> n \<noteq> 247) then char_of (n - 32) else c)"

definition toLowerCase :: "string \<Rightarrow> string" where
  "toLowerCase s = map lowerChar s"

definition trim :: "string \<Rightarrow> string" where
  "trim s = rev (dropWhile isSpace (rev (dropWhile isSpace s)))"

fun startsWith :: "string \<Rightarrow> string \<Rightarrow> bool" where
  "startsWith [] s = True"
| "startsWith (p # ps) [] = False"
| "startsWith (p # ps) (c # cs) = (p = c \<and> startsWith ps cs)"

fun includesStr :: "string \<Rightarrow> string \<Rightarrow> bool" where
  "includesStr sub [] = startsWith sub []"
| "includesStr sub (c # cs) = (startsWith sub (c # cs) \<or> includesStr sub cs)"

text \<open>
  \<^verbatim>\<open>s.split(sep)\<close> for a separator string that is not empty: the pieces between the
  occurrences of \<open>sep\<close>, found from left to right without overlap.
\<close>

function splitOn :: "string \<Rightarrow> string \<Rightarrow> string \<Rightarrow> string list" where
  "splitOn sep cur [] = [cur]"
| "splitOn sep cur (c # cs) =
     (if sep \<noteq> [] \<and> startsWith sep (c # cs)
      then cur # splitOn sep [] (drop (length sep) (c # cs))
      else splitOn sep (cur @ [c]) cs)"
  by pat_completeness auto
termination
  by (relation "measure (\<lambda>(sep, cur, s). length s)") (auto simp: neq_Nil_conv)

definition splitStr :: "string \<Rightarrow> string \<Rightarrow> string list" where
  "splitStr sep s = splitOn sep [] s"

text \<open>\<^verbatim>\<open>xs[i]\<close>: \<^verbatim>\<open>undefined\<close> (here \<open>None\<close>) out of range.\<close>

fun nth_opt :: "'a list \<Rightarrow> nat \<Rightarrow> 'a option" where
  "nth_opt [] n = None"
| "nth_opt (x # xs) 0 = Some x"
| "nth_opt (x # xs) (Suc n) = nth_opt xs n"

text \<open>\<^verbatim>\<open>xs.join(sep)\<close>.\<close>

fun join :: "string \<Rightarrow> string list \<Rightarrow> string" where
  "join sep [] = []"
| "join sep [x] = x"
| "join sep (x # y # ys) = x @ sep @ join sep (y # ys)"

section \<open>Regular expressions\<close>

text \<open>
  The regular expressions of the source are written with backtracking combinators in
  continuation-passing style. A matcher state is the rest of the input together with
  the text of capture group 1 (\<open>None\<close> while the group has not taken part, JavaScript's
  \<^verbatim>\<open>undefined\<close>). A matcher gets the continuation for what follows it in the pattern
  and tries its alternatives in the order of the ECMAScript specification; the first
  alternative for which the continuation succeeds wins.
\<close>

type_synonym mstate = "string \<times> string option"
type_synonym cont = "mstate \<Rightarrow> mstate option"
type_synonym matcher = "cont \<Rightarrow> cont"

text \<open>One code unit of a class.\<close>

fun chr :: "(char \<Rightarrow> bool) \<Rightarrow> matcher" where
  "chr P k ([], g) = None"
| "chr P k (c # cs, g) = (if P c then k (cs, g) else None)"

text \<open>A literal text, and a literal text under the \<^verbatim>\<open>i\<close> flag.\<close>

fun lit :: "string \<Rightarrow> matcher" where
  "lit [] k = k"
| "lit (p # ps) k = chr (\<lambda>c. c = p) (lit ps k)"

fun liti :: "string \<Rightarrow> matcher" where
  "liti [] k = k"
| "liti (p # ps) k = chr (\<lambda>c. canonicalize c = canonicalize p) (liti ps k)"

text \<open>Greedy \<^verbatim>\<open>C*\<close> and \<^verbatim>\<open>C+\<close> of a class \<open>C\<close>: the longest run first, then shorter ones.\<close>

fun star :: "(char \<Rightarrow> bool) \<Rightarrow> matcher" where
  "star P k ([], g) = k ([], g)"
| "star P k (c # cs, g) =
     (if P c then (case star P k (cs, g) of Some r \<Rightarrow> Some r | None \<Rightarrow> k (c # cs, g))
      else k (c # cs, g))"

definition rep1 :: "(char \<Rightarrow> bool) \<Rightarrow> matcher" where
  "rep1 P k = chr P (star P k)"

text \<open>Greedy \<^verbatim>\<open>(?:m)?\<close>, the alternation \<^verbatim>\<open>m1|m2\<close>, capture group 1 and \<^verbatim>\<open>$\<close>.\<close>

definition opt :: "matcher \<Rightarrow> matcher" where
  "opt m k st = (case m k st of Some r \<Rightarrow> Some r | None \<Rightarrow> k st)"

definition alt :: "matcher \<Rightarrow> matcher \<Rightarrow> matcher" where
  "alt m1 m2 k st = (case m1 k st of Some r \<Rightarrow> Some r | None \<Rightarrow> m2 k st)"

definition grp :: "matcher \<Rightarrow> matcher" where
  "grp m k st =
     m (\<lambda>st'. k (fst st', Some (take (length (fst st) - length (fst st')) (fst st)))) st"

definition eos :: "matcher" where
  "eos k st = (if fst st = [] then k st else None)"

text \<open>
  One try of the pattern at the very start of \<open>s\<close> (also a pattern that begins with
  \<^verbatim>\<open>^\<close>): the matched text and group 1.
\<close>

definition matchHere :: "matcher \<Rightarrow> string \<Rightarrow> (string \<times> string option) option" where
  "matchHere m s =
     (case m Some (s, None) of None \<Rightarrow> None
      | Some (rest, g) \<Rightarrow> Some (take (length s - length rest) s, g))"

text \<open>
  \<^verbatim>\<open>RegExp.prototype.exec\<close> without the \<^verbatim>\<open>g\<close> flag: the leftmost start at which the
  pattern matches. The result is the index of the match, the matched text and group 1.
\<close>

fun search :: "matcher \<Rightarrow> nat \<Rightarrow> string \<Rightarrow> (nat \<times> string \<times> string option) option" where
  "search m i [] =
     (case matchHere m [] of Some (w, g) \<Rightarrow> Some (i, w, g) | None \<Rightarrow> None)"
| "search m i (c # cs) =
     (case matchHere m (c # cs) of Some (w, g) \<Rightarrow> Some (i, w, g)
      | None \<Rightarrow> search m (Suc i) cs)"

definition exec :: "matcher \<Rightarrow> string \<Rightarrow> (nat \<times> string \<times> string option) option" where
  "exec m s = search m 0 s"

text \<open>
  \<^verbatim>\<open>s.match(re)\<close> as the source uses it, reading only element 1 of the result: \<open>None\<close>
  is \<^verbatim>\<open>null\<close>, \<open>Some None\<close> a match whose group 1 is \<^verbatim>\<open>undefined\<close>.
\<close>

definition match :: "matcher \<Rightarrow> string \<Rightarrow> string option option" where
  "match m s = (case exec m s of None \<Rightarrow> None | Some (i, w, g) \<Rightarrow> Some g)"

text \<open>\<^verbatim>\<open>s.replace(re, '')\<close> without the \<^verbatim>\<open>g\<close> flag, and for a pattern anchored with \<^verbatim>\<open>^\<close>.\<close>

definition replaceFirst :: "matcher \<Rightarrow> string \<Rightarrow> string" where
  "replaceFirst m s =
     (case exec m s of None \<Rightarrow> s | Some (i, w, g) \<Rightarrow> take i s @ drop (i + length w) s)"

definition replaceAtStart :: "matcher \<Rightarrow> string \<Rightarrow> string" where
  "replaceAtStart m s = (case matchHere m s of None \<Rightarrow> s | Some (w, g) \<Rightarrow> drop (length w) s)"

text \<open>
  \<^verbatim>\<open>s.replace(re, '')\<close> with the \<^verbatim>\<open>g\<close> flag: every match from left to right, the search
  going on at the end of the last match, one code unit further after an empty match.
\<close>

function replaceAll :: "matcher \<Rightarrow> string \<Rightarrow> string" where
  "replaceAll m [] = []"
| "replaceAll m (c # cs) =
     (case exec m (c # cs) of None \<Rightarrow> c # cs
      | Some (i, w, g) \<Rightarrow>
          if w \<noteq> [] then take i (c # cs) @ replaceAll m (drop (i + length w) (c # cs))
          else take (Suc i) (c # cs) @ replaceAll m (drop (Suc i) (c # cs)))"
  by pat_completeness auto
termination
  by (relation "measure (\<lambda>(m, s). length s)") (auto simp: neq_Nil_conv)

text \<open>
  \<^verbatim>\<open>s.split(re)\<close> for a pattern that is one lookahead \<^verbatim>\<open>(?=m)\<close>: the text is cut before
  every index \<open>q > 0\<close> at which \<open>m\<close> matches; no cut is made at index 0.
\<close>

fun splitBefore :: "matcher \<Rightarrow> string \<Rightarrow> string \<Rightarrow> string list" where
  "splitBefore m cur [] = [cur]"
| "splitBefore m cur (c # cs) =
     (if cur \<noteq> [] \<and> matchHere m (c # cs) \<noteq> None then cur # splitBefore m [c] cs
      else splitBefore m (cur @ [c]) cs)"

section \<open>Numbers\<close>

text \<open>
  A JavaScript number is modelled as an exact rational or \<^verbatim>\<open>NaN\<close>; the rounding of
  IEEE doubles is not modelled. Comparisons with \<^verbatim>\<open>NaN\<close> are false, arithmetic with
  \<^verbatim>\<open>NaN\<close> gives \<^verbatim>\<open>NaN\<close>.
\<close>

datatype jsnum = Num rat | NaN

fun jle :: "jsnum \<Rightarrow> jsnum \<Rightarrow> bool" where
  "jle (Num a) (Num b) = (a \<le> b)"
| "jle _ _ = False"

fun jlt :: "jsnum \<Rightarrow> jsnum \<Rightarrow> bool" where
  "jlt (Num a) (Num b) = (a < b)"
| "jlt _ _ = False"

fun jdiv :: "jsnum \<Rightarrow> jsnum \<Rightarrow> jsnum" where
  "jdiv (Num a) (Num b) = Num (a / b)"
| "jdiv _ _ = NaN"

fun jsub :: "jsnum \<Rightarrow> jsnum \<Rightarrow> jsnum" where
  "jsub (Num a) (Num b) = Num (a - b)"
| "jsub _ _ = NaN"

fun jmul :: "jsnum \<Rightarrow> jsnum \<Rightarrow> jsnum" where
  "jmul (Num a) (Num b) = Num (a * b)"
| "jmul _ _ = NaN"

fun mathMin :: "jsnum \<Rightarrow> jsnum \<Rightarrow> jsnum" where
  "mathMin (Num a) (Num b) = Num (min a b)"
| "mathMin _ _ = NaN"

fun mathMax :: "jsnum \<Rightarrow> jsnum \<Rightarrow> jsnum" where
  "mathMax (Num a) (Num b) = Num (max a b)"
| "mathMax _ _ = NaN"

definition digitsVal :: "string \<Rightarrow> nat" where
  "digitsVal ds = foldl (\<lambda>n c. 10 * n + digitVal c) 0 ds"

text \<open>The value of an exponent part \<^verbatim>\<open>e[+-]ddd\<close> at the start of \<open>s\<close>, 0 when there is none.\<close>

definition exponentPart :: "string \<Rightarrow> int" where
  "exponentPart s =
     (case s of [] \<Rightarrow> 0
      | e # r \<Rightarrow>
          if e = CHR ''e'' \<or> e = CHR ''E'' then
            (case r of [] \<Rightarrow> 0
             | sg # ds \<Rightarrow>
                 if sg = CHR ''-'' then - int (digitsVal (takeWhile isDigit ds))
                 else if sg = CHR ''+'' then int (digitsVal (takeWhile isDigit ds))
                 else int (digitsVal (takeWhile isDigit r)))
          else 0)"

text \<open>
  \<^verbatim>\<open>parseFloat\<close> on a string that starts with a decimal digit: the longest prefix
  \<^verbatim>\<open>digits[.digits][e[+-]digits]\<close> is read. A string that does not start with a digit is
  \<^verbatim>\<open>NaN\<close> here (signs, leading white space and \<^verbatim>\<open>Infinity\<close> are not modelled; the
  patterns of section 8 capture a text that starts with a digit).
\<close>

definition parseFloat :: "string \<Rightarrow> jsnum" where
  "parseFloat s =
     (let ip = takeWhile isDigit s; r1 = dropWhile isDigit s
      in if ip = [] then NaN
         else
           (let fp = (case r1 of [] \<Rightarrow> []
                       | c # fs \<Rightarrow> if c = CHR ''.'' then takeWhile isDigit fs else []);
                r2 = (case r1 of [] \<Rightarrow> []
                       | c # fs \<Rightarrow> if c = CHR ''.'' then dropWhile isDigit fs else r1)
            in Num (of_nat (digitsVal (ip @ fp)) / 10 ^ length fp * 10 powi exponentPart r2)))"

section \<open>The bullet extraction primitive\<close>

text \<open>The pattern \<^verbatim>\<open>/^[-*]\s*/\<close> (its \<^verbatim>\<open>^\<close> is the use of \<^const>\<open>replaceAtStart\<close>).\<close>

definition bulletRe :: matcher where
  "bulletRe = chr (\<lambda>c. c = CHR ''-'' \<or> c = CHR ''*'') \<circ> star isSpace"

text \<open>
  \<^verbatim>\<open>extractListItems\<close>: the lines of the text, trimmed; those that start with a hyphen;
  their marker and the white space after it removed; the empty results dropped.
\<close>

definition extractListItems :: "string \<Rightarrow> string list" where
  "extractListItems text =
     filter (\<lambda>line. line \<noteq> [])
       (map (replaceAtStart bulletRe)
         (filter (startsWith ''-'')
           (map trim (splitStr [CHR 0x0A] text))))"

section \<open>The analysis record\<close>

text \<open>
  The local variables of \<^verbatim>\<open>parseGeminiResponse\<close>, which are also the fields of its
  result. \<open>riskLevel\<close> is assigned from a capture group, so it may hold \<^verbatim>\<open>undefined\<close>
  (\<open>None\<close>). \<open>dates\<close> is an object used as a dictionary: an association list with one
  entry for each own property.
\<close>

record analysis =
  documentType :: string
  riskLevel :: "string option"
  riskFactors :: "string list"
  completionScore :: jsnum
  missingClauses :: "string list"
  keyTerms :: "string list"
  summary :: string
  parties :: "string list"
  dates :: "(string \<times> string) list"
  paymentTerms :: string
  terminationClauses :: "string list"
  concerningPoints :: "string list"

text \<open>The initial values of the variables; the record of the \<^verbatim>\<open>catch\<close> branch is the same.\<close>

definition defaults :: analysis where
  "defaults = \<lparr> documentType = ''Document'', riskLevel = Some ''Medium'', riskFactors = [],
     completionScore = Num (1/2), missingClauses = [], keyTerms = [], summary = [],
     parties = [], dates = [], paymentTerms = [], terminationClauses = [],
     concerningPoints = [] \<rparr>"

text \<open>An exception of the \<^verbatim>\<open>try\<close> block: a method call on \<^verbatim>\<open>undefined\<close>.\<close>

datatype error = TypeError

section \<open>Section 1: document type\<close>

definition notNewlineDash :: "char \<Rightarrow> bool" where
  "notNewlineDash c = (c \<noteq> CHR 0x0A \<and> c \<noteq> CHR ''-'')"

text \<open>\<^verbatim>\<open>/Type:\s*([^\n-]+)/i\<close>, \<^verbatim>\<open>/Document Type:\s*([^\n-]+)/i\<close>, \<^verbatim>\<open>/Type\s*:\s*([^\n-]+)/i\<close>.\<close>

definition typeRe1 :: matcher where
  "typeRe1 = liti ''Type:'' \<circ> star isSpace \<circ> grp (rep1 notNewlineDash)"

definition typeRe2 :: matcher where
  "typeRe2 = liti ''Document Type:'' \<circ> star isSpace \<circ> grp (rep1 notNewlineDash)"

definition typeRe3 :: matcher where
  "typeRe3 = liti ''Type'' \<circ> star isSpace \<circ> lit '':'' \<circ> star isSpace \<circ> grp (rep1 notNewlineDash)"

text \<open>
  \<^verbatim>\<open>/\s*and\s+Purpose\s*:?\s*/i\<close>, \<^verbatim>\<open>/\s*-\s*Purpose\s*:?\s*/i\<close>, \<^verbatim>\<open>/\s*Purpose\s*:?\s*/i\<close>,
  \<^verbatim>\<open>/\s*\([^)]*\)\s*/g\<close> and \<^verbatim>\<open>/[:\s]+$/\<close>.
\<close>

definition andPurposeRe :: matcher where
  "andPurposeRe = star isSpace \<circ> liti ''and'' \<circ> rep1 isSpace \<circ> liti ''Purpose'' \<circ> star isSpace
     \<circ> opt (lit '':'') \<circ> star isSpace"

definition dashPurposeRe :: matcher where
  "dashPurposeRe = star isSpace \<circ> lit ''-'' \<circ> star isSpace \<circ> liti ''Purpose'' \<circ> star isSpace
     \<circ> opt (lit '':'') \<circ> star isSpace"

definition purposeRe :: matcher where
  "purposeRe = star isSpace \<circ> liti ''Purpose'' \<circ> star isSpace \<circ> opt (lit '':'') \<circ> star isSpace"

definition parenRe :: matcher where
  "parenRe = star isSpace \<circ> lit ''('' \<circ> star (\<lambda>c. c \<noteq> CHR '')'') \<circ> lit '')'' \<circ> star isSpace"

definition trailingRe :: matcher where
  "trailingRe = rep1 (\<lambda>c. c = CHR '':'' \<or> isSpace c) \<circ> eos"

text \<open>The clean-up of the captured type, lines 96 to 103 of the source.\<close>

definition cleanType :: "string \<Rightarrow> string" where
  "cleanType t =
     trim (replaceFirst trailingRe
       (replaceAll parenRe
         (replaceFirst purposeRe
           (replaceFirst dashPurposeRe
             (replaceFirst andPurposeRe (trim t))))))"

text \<open>The three attempts at a type label; the first that matches wins.\<close>

definition typeMatch :: "string \<Rightarrow> string option option" where
  "typeMatch section =
     (case match typeRe1 section of Some g \<Rightarrow> Some g
      | None \<Rightarrow>
          (case match typeRe2 section of Some g \<Rightarrow> Some g
           | None \<Rightarrow> match typeRe3 section))"

definition section1 :: "analysis \<Rightarrow> string \<Rightarrow> error + analysis" where
  "section1 st section =
     (if startsWith ''1.'' section then
        (case typeMatch section of None \<Rightarrow> Inr st
         | Some None \<Rightarrow> Inl TypeError
         | Some (Some t) \<Rightarrow> Inr (st\<lparr>documentType := cleanType t\<rparr>))
      else Inr st)"

section \<open>Sections 2 to 5\<close>

definition section2 :: "analysis \<Rightarrow> string \<Rightarrow> analysis" where
  "section2 st section =
     (if startsWith ''2.'' section then st\<lparr>parties := extractListItems section\<rparr> else st)"

text \<open>
  \<^verbatim>\<open>dates[key] = value\<close> on a plain object: an own property is written, its place in the
  order of keys kept when it exists already. The key \<^verbatim>\<open>__proto__\<close> is the accessor of
  \<^verbatim>\<open>Object.prototype\<close>, whose setter ignores a string: nothing is stored.
\<close>

definition setKey :: "(string \<times> string) list \<Rightarrow> string \<Rightarrow> string \<Rightarrow> (string \<times> string) list" where
  "setKey d key v = (if key = ''__proto__'' then d else AList.update key v d)"

text \<open>The body of \<^verbatim>\<open>dateItems.forEach\<close>, lines 117 to 122 of the source.\<close>

definition addDate :: "(string \<times> string) list \<Rightarrow> string \<Rightarrow> (string \<times> string) list" where
  "addDate d item =
     (if includesStr '':'' item then
        (let parts = map trim (splitStr '':'' item)
         in case nth_opt parts 0 of None \<Rightarrow> d
            | Some key \<Rightarrow>
                (case nth_opt parts 1 of None \<Rightarrow> d
                 | Some v \<Rightarrow> if key \<noteq> [] \<and> v \<noteq> [] then setKey d key v else d))
      else d)"

definition section3 :: "analysis \<Rightarrow> string \<Rightarrow> analysis" where
  "section3 st section =
     (if startsWith ''3.'' section
      then st\<lparr>dates := foldl addDate (dates st) (extractListItems section)\<rparr> else st)"

text \<open>\<^verbatim>\<open>/^\d+\.\s*/\<close>.\<close>

definition numberingRe :: matcher where
  "numberingRe = rep1 isDigit \<circ> lit ''.'' \<circ> star isSpace"

definition section4 :: "analysis \<Rightarrow> string \<Rightarrow> analysis" where
  "section4 st section =
     (if startsWith ''4.'' section then
        (let paymentItems = extractListItems section;
             cleanedItems = filter (\<lambda>item. 0 < length item)
               (map (\<lambda>item. trim (replaceAtStart numberingRe (replaceAtStart bulletRe item)))
                 paymentItems)
         in st\<lparr>paymentTerms := join '' || '' cleanedItems\<rparr>)
      else st)"

definition section5 :: "analysis \<Rightarrow> string \<Rightarrow> analysis" where
  "section5 st section =
     (if startsWith ''5.'' section then st\<lparr>keyTerms := extractListItems section\<rparr> else st)"

section \<open>Section 6: risk assessment\<close>

text \<open>\<^verbatim>\<open>/Risk Level:\s*(High|Medium|Low)/i\<close>.\<close>

definition riskRe :: matcher where
  "riskRe = liti ''Risk Level:'' \<circ> star isSpace
     \<circ> grp (alt (liti ''High'') (alt (liti ''Medium'') (liti ''Low'')))"

text \<open>
  Truthiness of a value that is a string or \<^verbatim>\<open>undefined\<close>, and \<^verbatim>\<open>a || b\<close> on two such
  values.
\<close>

definition truthy :: "string option \<Rightarrow> bool" where
  "truthy v = (case v of None \<Rightarrow> False | Some s \<Rightarrow> s \<noteq> [])"

definition orElse :: "string option \<Rightarrow> string option \<Rightarrow> string option" where
  "orElse a b = (if truthy a then a else b)"

definition riskSection :: "string \<Rightarrow> string option" where
  "riskSection section =
     orElse (nth_opt (splitStr ''Risk Factors:'' section) 1)
            (nth_opt (splitStr ''Risk Factors'' section) 1)"

definition concerningSection :: "string \<Rightarrow> string option" where
  "concerningSection section =
     orElse (nth_opt (splitStr ''Concerning Elements:'' section) 1)
            (nth_opt (splitStr ''Concerning Elements'' section) 1)"

text \<open>Lines 147 to 150: the explicit risk level.\<close>

definition explicitRisk :: "analysis \<Rightarrow> string \<Rightarrow> analysis" where
  "explicitRisk st section =
     (case match riskRe section of None \<Rightarrow> st | Some g \<Rightarrow> st\<lparr>riskLevel := g\<rparr>)"

text \<open>Lines 153 to 162: the risk factors, and the risk level from their number.\<close>

definition riskFactorsStep :: "analysis \<Rightarrow> string \<Rightarrow> analysis" where
  "riskFactorsStep st section =
     (case riskSection section of None \<Rightarrow> st
      | Some rs \<Rightarrow>
          if rs \<noteq> [] then
            (let st' = st\<lparr>riskFactors := extractListItems rs\<rparr>
             in if match riskRe section = None then
                  (if 5 < length (riskFactors st') then st'\<lparr>riskLevel := Some ''High''\<rparr>
                   else if 2 < length (riskFactors st') then st'\<lparr>riskLevel := Some ''Medium''\<rparr>
                   else st'\<lparr>riskLevel := Some ''Low''\<rparr>)
                else st')
          else st)"

text \<open>Lines 165 to 172: the concerning points, and the upgrade of the risk level.\<close>

definition concerningStep :: "analysis \<Rightarrow> string \<Rightarrow> analysis" where
  "concerningStep st section =
     (case concerningSection section of None \<Rightarrow> st
      | Some cs \<Rightarrow>
          if cs \<noteq> [] then
            (let st' = st\<lparr>concerningPoints := extractListItems cs\<rparr>
             in if 3 < length (concerningPoints st') \<and> riskLevel st' \<noteq> Some ''High''
                then st'\<lparr>riskLevel := Some ''High''\<rparr> else st')
          else st)"

definition section6 :: "analysis \<Rightarrow> string \<Rightarrow> analysis" where
  "section6 st section =
     (if startsWith ''6.'' section
      then concerningStep (riskFactorsStep (explicitRisk st section) section) section
      else st)"

section \<open>Sections 7 to 9\<close>

definition section7 :: "analysis \<Rightarrow> string \<Rightarrow> analysis" where
  "section7 st section =
     (if startsWith ''7.'' section then st\<lparr>missingClauses := extractListItems section\<rparr> else st)"

text \<open>
  \<^verbatim>\<open>/Score:\s*(\d+(?:\.\d+)?)/i\<close>, \<^verbatim>\<open>/Score\s*:\s*(\d+(?:\.\d+)?)/i\<close>, \<^verbatim>\<open>/(\d+(?:\.\d+)?)/i\<close>
  and \<^verbatim>\<open>/(\d+\.\d+)/\<close>.
\<close>

definition numberRe :: matcher where
  "numberRe = rep1 isDigit \<circ> opt (lit ''.'' \<circ> rep1 isDigit)"

definition scoreRe1 :: matcher where
  "scoreRe1 = liti ''Score:'' \<circ> star isSpace \<circ> grp numberRe"

definition scoreRe2 :: matcher where
  "scoreRe2 = liti ''Score'' \<circ> star isSpace \<circ> lit '':'' \<circ> star isSpace \<circ> grp numberRe"

definition scoreRe3 :: matcher where
  "scoreRe3 = grp numberRe"

definition scoreRe4 :: matcher where
  "scoreRe4 = grp (rep1 isDigit \<circ> lit ''.'' \<circ> rep1 isDigit)"

text \<open>The four attempts at a score, lines 183 to 192; the first that matches wins.\<close>

definition scoreMatch :: "string \<Rightarrow> string option option" where
  "scoreMatch section =
     (case match scoreRe1 section of Some g \<Rightarrow> Some g
      | None \<Rightarrow>
          (case match scoreRe2 section of Some g \<Rightarrow> Some g
           | None \<Rightarrow>
               (case match scoreRe3 section of Some g \<Rightarrow> Some g
                | None \<Rightarrow> match scoreRe4 section)))"

text \<open>Lines 196 to 206: the captured number brought to the scale from 0 to 1.\<close>

definition normalizeScore :: "jsnum \<Rightarrow> jsnum" where
  "normalizeScore extractedScore =
     (if jle (Num 0) extractedScore \<and> jle extractedScore (Num 1) then extractedScore
      else if jlt (Num 1) extractedScore \<and> jle extractedScore (Num 10)
        then jdiv extractedScore (Num 10)
      else if jlt (Num 10) extractedScore \<and> jle extractedScore (Num 100)
        then jdiv extractedScore (Num 100)
      else mathMin (jdiv extractedScore (Num 10)) (Num 1))"

text \<open>Lines 208 to 234: the score from the fields found so far.\<close>

definition presentFields :: "analysis \<Rightarrow> nat" where
  "presentFields st =
     length (filter (\<lambda>b. b)
       [0 < length (parties st), 0 < length (dates st), 0 < length (keyTerms st),
        0 < length (riskFactors st), 0 < length (paymentTerms st), 0 < length (summary st)])"

definition fallbackScore :: "analysis \<Rightarrow> jsnum" where
  "fallbackScore st =
     (let totalExpectedFields = 8; missingCount = length (missingClauses st)
      in mathMax (Num 0)
           (mathMin (Num 1)
             (jsub (jdiv (Num (of_nat (presentFields st))) (Num totalExpectedFields))
                   (jmul (Num (of_nat missingCount)) (Num (1/10))))))"

definition section8 :: "analysis \<Rightarrow> string \<Rightarrow> analysis" where
  "section8 st section =
     (if startsWith ''8.'' section then
        (case scoreMatch section of
           Some g \<Rightarrow>
             st\<lparr>completionScore :=
                  normalizeScore (case g of None \<Rightarrow> NaN | Some t \<Rightarrow> parseFloat t)\<rparr>
         | None \<Rightarrow> st\<lparr>completionScore := fallbackScore st\<rparr>)
      else st)"

definition section9 :: "analysis \<Rightarrow> string \<Rightarrow> analysis" where
  "section9 st section =
     (if startsWith ''9.'' section then st\<lparr>summary := join '' '' (extractListItems section)\<rparr>
      else st)"

section \<open>The normalizer\<close>

text \<open>The separator of \<^verbatim>\<open>text.split(/(?=\d+\.)/)\<close>.\<close>

definition boundaryRe :: matcher where
  "boundaryRe = rep1 isDigit \<circ> lit ''.''"

definition sections :: "string \<Rightarrow> string list" where
  "sections text = splitBefore boundaryRe [] text"

text \<open>The callback of \<^verbatim>\<open>sections.forEach\<close>: a blank section is skipped.\<close>

definition processSection :: "analysis \<Rightarrow> string \<Rightarrow> error + analysis" where
  "processSection st section =
     (if trim section = [] then Inr st
      else
        (case section1 st section of Inl e \<Rightarrow> Inl e
         | Inr st1 \<Rightarrow>
             Inr (section9 (section8 (section7 (section6 (section5 (section4 (section3
                   (section2 st1 section) section) section) section) section) section)
                   section) section)))"

fun forEachSection :: "analysis \<Rightarrow> string list \<Rightarrow> error + analysis" where
  "forEachSection st [] = Inr st"
| "forEachSection st (section # rest) =
     (case processSection st section of Inl e \<Rightarrow> Inl e
      | Inr st' \<Rightarrow> forEachSection st' rest)"

text \<open>Lines 246 to 255: the key terms that speak of an end of the contract.\<close>

definition isTerminationTerm :: "string \<Rightarrow> bool" where
  "isTerminationTerm term' =
     (let lowerTerm = toLowerCase term'
      in includesStr ''terminat'' lowerTerm \<or> includesStr ''cancel'' lowerTerm
         \<or> includesStr ''revoke'' lowerTerm \<or> includesStr ''end'' lowerTerm
         \<or> includesStr ''expiration'' lowerTerm)"

text \<open>The \<^verbatim>\<open>try\<close> block, and the function with its \<^verbatim>\<open>catch\<close>.\<close>

definition tryBlock :: "string \<Rightarrow> error + analysis" where
  "tryBlock text =
     (case forEachSection defaults (sections text) of Inl e \<Rightarrow> Inl e
      | Inr st \<Rightarrow> Inr (st\<lparr>terminationClauses := filter isTerminationTerm (keyTerms st)\<rparr>))"

definition parseGeminiResponse :: "string \<Rightarrow> analysis" where
  "parseGeminiResponse text = (case tryBlock text of Inl e \<Rightarrow> defaults | Inr result \<Rightarrow> result)"

section \<open>Matchers that succeed only through their continuation\<close>

text \<open>
  Every combinator above returns a result only by calling its continuation, on a rest
  of the input that is not longer than the one it was given.
\<close>

definition passes :: "matcher \<Rightarrow> bool" where
  "passes m = (\<forall>k st r. m k st = Some r \<longrightarrow>
     (\<exists>st'. k st' = Some r \<and> length (fst st') \<le> length (fst st)))"

section \<open>The range of the completion score\<close>

text \<open>The invariant of the loop over the sections: the score is a number from 0 to 1.\<close>

definition scoreOk :: "analysis \<Rightarrow> bool" where
  "scoreOk st = (\<exists>r. completionScore st = Num r \<and> 0 \<le> r \<and> r \<le> 1)"

section \<open>Properties of the matching\<close>

lemma passesD:
  "passes m \<Longrightarrow> m k st = Some r \<Longrightarrow> \<exists>st'. k st' = Some r \<and> length (fst st') \<le> length (fst st)"
  unfolding passes_def by blast

lemma passes_chr: "passes (chr P)"
  unfolding passes_def
proof (intro allI impI)
  fix k st r assume a: "chr P k st = Some r"
  obtain s g where st: "st = (s, g)" by (cases st)
  from a st obtain c cs where "s = c # cs" "k (cs, g) = Some r"
    by (cases s) (auto split: if_splits)
  then show "\<exists>st'. k st' = Some r \<and> length (fst st') \<le> length (fst st)"
    using st by (intro exI[of _ "(cs, g)"]) simp
qed

lemma star_SomeD:
  "star P k (s, g) = Some r \<Longrightarrow> \<exists>n. n \<le> length (takeWhile P s) \<and> k (drop n s, g) = Some r"
proof (induction s)
  case Nil
  then show ?case by simp
next
  case (Cons c cs)
  show ?case
  proof (cases "P c \<and> star P k (cs, g) \<noteq> None")
    case True
    then have "star P k (cs, g) = Some r" using Cons.prems by auto
    from Cons.IH[OF this] obtain n where "n \<le> length (takeWhile P cs)" "k (drop n cs, g) = Some r"
      by blast
    then show ?thesis using True by (intro exI[of _ "Suc n"]) simp
  next
    case False
    then have "k (c # cs, g) = Some r" using Cons.prems by (auto split: if_splits option.splits)
    then show ?thesis by (intro exI[of _ 0]) simp
  qed
qed

lemma passes_star: "passes (star P)"
  unfolding passes_def
proof (intro allI impI)
  fix k st r assume a: "star P k st = Some r"
  obtain s g where st: "st = (s, g)" by (cases st)
  from star_SomeD[of P k s g r] a st obtain n where "k (drop n s, g) = Some r" by blast
  then show "\<exists>st'. k st' = Some r \<and> length (fst st') \<le> length (fst st)"
    using st by (intro exI[of _ "(drop n s, g)"]) simp
qed

lemma passes_comp: 
  assumes "passes m1" "passes m2" 
  shows "passes (m1 \<circ> m2)"
  unfolding passes_def
proof (intro allI impI)
  fix k st r assume "(m1 \<circ> m2) k st = Some r"
  then have "m1 (m2 k) st = Some r" by simp
  from passesD[OF assms(1) this] obtain st1 where
    1: "m2 k st1 = Some r" "length (fst st1) \<le> length (fst st)" by blast
  from passesD[OF assms(2) 1(1)] obtain st2 where
    2: "k st2 = Some r" "length (fst st2) \<le> length (fst st1)" by blast
  from 1(2) 2 show "\<exists>st'. k st' = Some r \<and> length (fst st') \<le> length (fst st)"
    by (intro exI[of _ st2]) simp
qed

lemma passes_id: "passes (\<lambda>k. k)"
  unfolding passes_def by auto

lemma passes_rep1: "passes (rep1 P)"
proof -
  have eq: "rep1 P = chr P \<circ> star P" by (rule ext) (simp add: rep1_def)
  show ?thesis unfolding eq by (intro passes_comp passes_chr passes_star)
qed

lemma passes_lit: "passes (lit p)"
proof (induction p)
  case Nil
  have eq: "lit [] = (\<lambda>k. k)" by (rule ext) simp
  show ?case unfolding eq by (rule passes_id)
next
  case (Cons c p)
  have eq: "lit (c # p) = chr (\<lambda>x. x = c) \<circ> lit p" by (rule ext) simp
  show ?case unfolding eq by (intro passes_comp passes_chr Cons)
qed

lemma passes_liti: "passes (liti p)"
proof (induction p)
  case Nil
  have eq: "liti [] = (\<lambda>k. k)" by (rule ext) simp
  show ?case unfolding eq by (rule passes_id)
next
  case (Cons c p)
  have eq: "liti (c # p) = chr (\<lambda>x. canonicalize x = canonicalize c) \<circ> liti p"
    by (rule ext) simp
  show ?case unfolding eq by (intro passes_comp passes_chr Cons)
qed

lemma passes_opt: 
  assumes "passes m" 
  shows "passes (opt m)"
  unfolding passes_def
proof (intro allI impI)
  fix k st r assume a: "opt m k st = Some r"
  show "\<exists>st'. k st' = Some r \<and> length (fst st') \<le> length (fst st)"
  proof (cases "m k st")
    case None
    with a have "k st = Some r" by (simp add: opt_def)
    then show ?thesis by (intro exI[of _ st]) simp
  next
    case (Some r')
    with a have "m k st = Some r" by (simp add: opt_def)
    from passesD[OF assms this] show ?thesis .
  qed
qed

lemma passes_alt: 
  assumes "passes m1" "passes m2" 
  shows "passes (alt m1 m2)"
  unfolding passes_def
proof (intro allI impI)
  fix k st r assume a: "alt m1 m2 k st = Some r"
  show "\<exists>st'. k st' = Some r \<and> length (fst st') \<le> length (fst st)"
  proof (cases "m1 k st")
    case None
    with a have "m2 k st = Some r" by (simp add: alt_def)
    from passesD[OF assms(2) this] show ?thesis .
  next
    case (Some r')
    with a have "m1 k st = Some r" by (simp add: alt_def)
    from passesD[OF assms(1) this] show ?thesis .
  qed
qed

text \<open>A pattern that ends with its group: the group takes part in every match.\<close>

lemma grp_last_set:
  assumes "passes pre" "passes m" "(pre \<circ> grp m) Some st = Some r"
  shows "\<exists>t. snd r = Some t"
proof -
  from assms(3) have "pre (grp m Some) st = Some r" by simp
  from passesD[OF assms(1) this] obtain st1 where "grp m Some st1 = Some r" by blast
  then have "m (\<lambda>st'. Some (fst st', Some (take (length (fst st1) - length (fst st')) (fst st1)))) st1 = Some r"
    by (simp add: grp_def)
  from passesD[OF assms(2) this] show ?thesis by auto
qed

lemma search_SomeD:
  "search m i s = Some (j, w, g) \<Longrightarrow> \<exists>s'. matchHere m s' = Some (w, g)"
  by (induction s arbitrary: i) (auto split: option.splits)

lemma match_SomeD: 
  assumes "match m s = Some g" 
  shows "\<exists>s' w. matchHere m s' = Some (w, g)"
proof -
  from assms obtain i w where "search m 0 s = Some (i, w, g)"
    unfolding match_def exec_def by (auto split: option.splits)
  from search_SomeD[OF this] show ?thesis by blast
qed

lemma matchHere_SomeD: "matchHere m s = Some (w, g) \<Longrightarrow> \<exists>rest. m Some (s, None) = Some (rest, g)"
  unfolding matchHere_def by (auto split: option.splits)

lemma grp_last_match:
  assumes "passes pre" "passes m" "match (pre \<circ> grp m) s = Some g"
  shows "\<exists>t. g = Some t"
proof -
  from assms(3) obtain s' rest where "(pre \<circ> grp m) Some (s', None) = Some (rest, g)"
    by (blast dest: match_SomeD matchHere_SomeD)
  from grp_last_set[OF assms(1,2) this] show ?thesis by simp
qed

lemma passes_typePre1: "passes (liti ''Type:'' \<circ> star isSpace)"
  by (intro passes_comp passes_liti passes_star)

lemma passes_typePre2: "passes (liti ''Document Type:'' \<circ> star isSpace)"
  by (intro passes_comp passes_liti passes_star)

lemma passes_typePre3: "passes (liti ''Type'' \<circ> star isSpace \<circ> lit '':'' \<circ> star isSpace)"
  by (intro passes_comp passes_liti passes_star passes_lit)

lemma typeMatch_group: "typeMatch s = Some g \<Longrightarrow> \<exists>t. g = Some t"
proof -
  assume "typeMatch s = Some g"
  then consider "match typeRe1 s = Some g" | "match typeRe2 s = Some g" | "match typeRe3 s = Some g"
    unfolding typeMatch_def by (auto split: option.splits)
  then show ?thesis
  proof cases
    case 1
    then show ?thesis
      using grp_last_match[OF passes_typePre1 passes_rep1, of notNewlineDash s g]
      by (simp add: typeRe1_def)
  next
    case 2
    then show ?thesis
      using grp_last_match[OF passes_typePre2 passes_rep1, of notNewlineDash s g]
      by (simp add: typeRe2_def)
  next
    case 3
    then show ?thesis
      using grp_last_match[OF passes_typePre3 passes_rep1, of notNewlineDash s g]
      by (simp add: typeRe3_def)
  qed
qed


section \<open>The try block returns for every input\<close>

lemma section1_Inr: "\<exists>d. section1 st s = Inr (st\<lparr>documentType := d\<rparr>)"
proof (cases "startsWith ''1.'' s")
  case False
  then have "section1 st s = Inr (st\<lparr>documentType := documentType st\<rparr>)"
    by (simp add: section1_def)
  then show ?thesis by blast
next
  case True
  show ?thesis
  proof (cases "typeMatch s")
    case None
    with True have "section1 st s = Inr (st\<lparr>documentType := documentType st\<rparr>)"
      by (simp add: section1_def)
    then show ?thesis by blast
  next
    case (Some g)
    from typeMatch_group[OF this] obtain t where "g = Some t" by blast
    with True Some have "section1 st s = Inr (st\<lparr>documentType := cleanType t\<rparr>)"
      by (simp add: section1_def)
    then show ?thesis by blast
  qed
qed

lemma processSection_Inr:
  "\<exists>d. processSection st s =
     Inr (if trim s = [] then st
          else section9 (section8 (section7 (section6 (section5 (section4 (section3
                 (section2 (st\<lparr>documentType := d\<rparr>) s) s) s) s) s) s) s) s)"
proof -
  from section1_Inr[of st s] obtain d where "section1 st s = Inr (st\<lparr>documentType := d\<rparr>)"
    by blast
  then have "processSection st s =
     Inr (if trim s = [] then st
          else section9 (section8 (section7 (section6 (section5 (section4 (section3
                 (section2 (st\<lparr>documentType := d\<rparr>) s) s) s) s) s) s) s) s)"
    by (simp add: processSection_def)
  then show ?thesis by blast
qed

lemma forEachSection_Inr: "\<exists>st'. forEachSection st ss = Inr st'"
proof (induction ss arbitrary: st)
  case Nil
  then show ?case by simp
next
  case (Cons s ss)
  from processSection_Inr[of st s] obtain st1 where "processSection st s = Inr st1" by blast
  with Cons[of st1] show ?case by simp
qed

lemma forEachSection_invariant:
  assumes "P st"
    and "\<And>st s st'. P st \<Longrightarrow> processSection st s = Inr st' \<Longrightarrow> P st'"
    and "forEachSection st ss = Inr st'"
  shows "P st'"
  using assms(1,3)
proof (induction ss arbitrary: st)
  case Nil
  then show ?case by simp
next
  case (Cons s ss)
  from processSection_Inr[of st s] obtain st1 where 1: "processSection st s = Inr st1" by blast
  with Cons.prems(2) have "forEachSection st1 ss = Inr st'" by simp
  moreover have "P st1" using assms(2)[OF Cons.prems(1) 1] .
  ultimately show ?case by (rule Cons.IH[rotated])
qed

lemma forEachSection_append:
  "forEachSection st (xs @ ys) =
     (case forEachSection st xs of Inl e \<Rightarrow> Inl e | Inr st1 \<Rightarrow> forEachSection st1 ys)"
  by (induction xs arbitrary: st) (auto split: sum.splits)

lemma tryBlock_Inr:
  "\<exists>st. forEachSection defaults (sections input) = Inr st \<and>
     tryBlock input = Inr (st\<lparr>terminationClauses := filter isTerminationTerm (keyTerms st)\<rparr>)"
proof -
  from forEachSection_Inr obtain st where "forEachSection defaults (sections input) = Inr st"
    by blast
  then show ?thesis by (auto simp: tryBlock_def)
qed

lemma parse_eq:
  "\<exists>st. forEachSection defaults (sections input) = Inr st \<and>
     parseGeminiResponse input =
       st\<lparr>terminationClauses := filter isTerminationTerm (keyTerms st)\<rparr>"
  using tryBlock_Inr[of input] by (auto simp: parseGeminiResponse_def)

section \<open>Termination clauses\<close>

text \<open>\<^const>\<open>startsWith\<close> and \<^const>\<open>includesStr\<close> are the prefix and the substring test.\<close>

lemma startsWith_iff: "startsWith p s \<longleftrightarrow> (\<exists>b. s = p @ b)"
proof (induction p s rule: startsWith.induct)
  case (1 s)
  then show ?case by simp
next
  case (2 p ps)
  then show ?case by simp
next
  case (3 p ps c cs)
  then show ?case by auto
qed

lemma includesStr_iff: "includesStr sub s \<longleftrightarrow> (\<exists>a b. s = a @ sub @ b)"
proof (induction s)
  case Nil
  then show ?case by (auto simp: startsWith_iff)
next
  case (Cons c cs)
  note IH = Cons.IH
  show ?case
  proof
    assume "includesStr sub (c # cs)"
    then consider "startsWith sub (c # cs)" | "includesStr sub cs" by auto
    then show "\<exists>a b. c # cs = a @ sub @ b"
    proof cases
      case 1
      then obtain b where "c # cs = sub @ b" by (auto simp: startsWith_iff)
      then have "c # cs = [] @ sub @ b" by simp
      then show ?thesis by blast
    next
      case 2
      with IH obtain a b where "cs = a @ sub @ b" by blast
      then have "c # cs = (c # a) @ sub @ b" by simp
      then show ?thesis by blast
    qed
  next
    assume "\<exists>a b. c # cs = a @ sub @ b"
    then obtain a b where ab: "c # cs = a @ sub @ b" by blast
    show "includesStr sub (c # cs)"
    proof (cases a)
      case Nil
      with ab have "startsWith sub (c # cs)" by (auto simp: startsWith_iff)
      then show ?thesis by simp
    next
      case (Cons x a')
      with ab have "cs = a' @ sub @ b" by simp
      with IH have "includesStr sub cs" by blast
      then show ?thesis by simp
    qed
  qed
qed

text \<open>
  Claim C8. For every input string, \<open>terminationClauses\<close> is exactly the list of the
  \<open>keyTerms\<close> entries whose lower-case form contains one of the substrings
  "terminat", "cancel", "revoke", "end", "expiration", in the order of \<open>keyTerms\<close>; so it
  is a subset of \<open>keyTerms\<close>, and \<open>keyTerms\<close> itself loses no entry (the result holds the
  full list that was filtered).
\<close>

theorem terminationClauses_filter_keyTerms:
  "terminationClauses (parseGeminiResponse input) =
     filter (\<lambda>t. \<exists>w \<in> set [''terminat'', ''cancel'', ''revoke'', ''end'', ''expiration''].
                  includesStr w (toLowerCase t))
       (keyTerms (parseGeminiResponse input))
   \<and> set (terminationClauses (parseGeminiResponse input))
       \<subseteq> set (keyTerms (parseGeminiResponse input))
   \<and> (\<forall>t. t \<in> set (terminationClauses (parseGeminiResponse input)) \<longleftrightarrow>
          t \<in> set (keyTerms (parseGeminiResponse input))
          \<and> (\<exists>w \<in> set [''terminat'', ''cancel'', ''revoke'', ''end'', ''expiration''].
                \<exists>a b. toLowerCase t = a @ w @ b))"
proof -
  from parse_eq[of input] obtain st where
    r: "parseGeminiResponse input =
          st\<lparr>terminationClauses := filter isTerminationTerm (keyTerms st)\<rparr>"
    by blast
  have "isTerminationTerm =
    (\<lambda>t. \<exists>w \<in> set [''terminat'', ''cancel'', ''revoke'', ''end'', ''expiration''].
            includesStr w (toLowerCase t))"
    by (rule ext) (simp add: isTerminationTerm_def Let_def)
  with r have 1: "terminationClauses (parseGeminiResponse input) =
     filter (\<lambda>t. \<exists>w \<in> set [''terminat'', ''cancel'', ''revoke'', ''end'', ''expiration''].
                  includesStr w (toLowerCase t))
       (keyTerms (parseGeminiResponse input))"
    by simp
  have 2: "\<forall>t. t \<in> set (terminationClauses (parseGeminiResponse input)) \<longleftrightarrow>
          t \<in> set (keyTerms (parseGeminiResponse input))
          \<and> (\<exists>w \<in> set [''terminat'', ''cancel'', ''revoke'', ''end'', ''expiration''].
                \<exists>a b. toLowerCase t = a @ w @ b)"
    unfolding 1 includesStr_iff by auto
  from 1 2 show ?thesis by auto
qed

theorem terminationClauses_filter_keyTerms_witness:
  "keyTerms (parseGeminiResponse
     ''5. Key Terms:\<newline>- Early termination allowed with 30 days notice\<newline>- Pay monthly'')
     = [''Early termination allowed with 30 days notice'', ''Pay monthly'']
   \<and> terminationClauses (parseGeminiResponse
     ''5. Key Terms:\<newline>- Early termination allowed with 30 days notice\<newline>- Pay monthly'')
     = [''Early termination allowed with 30 days notice'']"
proof -
  have k: "keyTerms (parseGeminiResponse
     ''5. Key Terms:\<newline>- Early termination allowed with 30 days notice\<newline>- Pay monthly'')
     = [''Early termination allowed with 30 days notice'', ''Pay monthly'']"
    by code_simp
  have f: "filter (\<lambda>t. \<exists>w \<in> set [''terminat'', ''cancel'', ''revoke'', ''end'', ''expiration''].
                  includesStr w (toLowerCase t))
       [''Early termination allowed with 30 days notice'', ''Pay monthly'']
     = [''Early termination allowed with 30 days notice'']"
    by code_simp
  from terminationClauses_filter_keyTerms[of
     "''5. Key Terms:\<newline>- Early termination allowed with 30 days notice\<newline>- Pay monthly''"]
  show ?thesis unfolding k f by simp
qed

section \<open>Error handling\<close>

text \<open>
  Claim C9. For every input string the \<^verbatim>\<open>try\<close> block of the normalizer completes
  without an exception (the only operation that could throw, \<^verbatim>\<open>typeMatch[1].trim()\<close>,
  always finds its group defined), and the function returns the record that the block
  built: the \<^verbatim>\<open>catch\<close> branch, which would replace the whole record by the defaults,
  is the only other way out and is never taken, so no mixed record can arise.
\<close>

theorem parseGeminiResponse_never_throws:
  "\<exists>r. tryBlock input = Inr r \<and> parseGeminiResponse input = r"
  using tryBlock_Inr[of input] by (auto simp: parseGeminiResponse_def)

section \<open>What the score patterns capture\<close>

lemma grp_digit_first:
  assumes "passes pre" "passes X" "(pre \<circ> grp (rep1 isDigit \<circ> X)) Some st = Some r"
  shows "\<exists>c cs. snd r = Some (c # cs) \<and> isDigit c"
proof -
  from assms(3) have "pre (grp (rep1 isDigit \<circ> X) Some) st = Some r" by simp
  from passesD[OF assms(1) this] obtain st1 where 1: "grp (rep1 isDigit \<circ> X) Some st1 = Some r"
    by blast
  obtain s1 g1 where st1: "st1 = (s1, g1)" by (cases st1)
  define k :: cont where "k = (\<lambda>st'. Some (fst st', Some (take (length s1 - length (fst st')) s1)))"
  from 1 st1 have 2: "chr isDigit (star isDigit (X k)) (s1, g1) = Some r"
    by (simp add: grp_def rep1_def k_def)
  then obtain c cs where s1: "s1 = c # cs" and c: "isDigit c"
    and 3: "(star isDigit \<circ> X) k (cs, g1) = Some r"
    by (cases s1) (auto split: if_splits)
  have "passes (star isDigit \<circ> X)" by (intro passes_comp passes_star assms(2))
  from passesD[OF this 3] obtain st2 where 4: "k st2 = Some r" "length (fst st2) \<le> length cs"
    by auto
  from 4(2) have "length s1 - length (fst st2) = Suc (length cs - length (fst st2))"
    by (simp add: s1 Suc_diff_le)
  with 4(1) have "snd r = Some (c # take (length cs - length (fst st2)) cs)"
    by (auto simp: k_def s1)
  with c show ?thesis by blast
qed

lemma match_digit_first:
  assumes "passes pre" "passes X" "match (pre \<circ> grp (rep1 isDigit \<circ> X)) s = Some g"
  shows "\<exists>c cs. g = Some (c # cs) \<and> isDigit c"
proof -
  from assms(3) obtain s' rest where
    "(pre \<circ> grp (rep1 isDigit \<circ> X)) Some (s', None) = Some (rest, g)"
    by (blast dest: match_SomeD matchHere_SomeD)
  from grp_digit_first[OF assms(1,2) this] show ?thesis by simp
qed

lemma passes_fraction: "passes (lit ''.'' \<circ> rep1 isDigit)"
  by (intro passes_comp passes_lit passes_rep1)

lemma passes_scorePre1: "passes (liti ''Score:'' \<circ> star isSpace)"
  by (intro passes_comp passes_liti passes_star)

lemma passes_scorePre2: "passes (liti ''Score'' \<circ> star isSpace \<circ> lit '':'' \<circ> star isSpace)"
  by (intro passes_comp passes_liti passes_star passes_lit)

lemma scoreRe1_digit: "match scoreRe1 s = Some g \<Longrightarrow> \<exists>c cs. g = Some (c # cs) \<and> isDigit c"
proof -
  have eq: "scoreRe1 = (liti ''Score:'' \<circ> star isSpace)
      \<circ> grp (rep1 isDigit \<circ> opt (lit ''.'' \<circ> rep1 isDigit))"
    unfolding scoreRe1_def numberRe_def by (rule refl)
  show "match scoreRe1 s = Some g \<Longrightarrow> \<exists>c cs. g = Some (c # cs) \<and> isDigit c"
    unfolding eq by (rule match_digit_first[OF passes_scorePre1 passes_opt[OF passes_fraction]])
qed

lemma scoreRe2_digit: "match scoreRe2 s = Some g \<Longrightarrow> \<exists>c cs. g = Some (c # cs) \<and> isDigit c"
proof -
  have eq: "scoreRe2 = (liti ''Score'' \<circ> star isSpace \<circ> lit '':'' \<circ> star isSpace)
      \<circ> grp (rep1 isDigit \<circ> opt (lit ''.'' \<circ> rep1 isDigit))"
    unfolding scoreRe2_def numberRe_def by (rule refl)
  show "match scoreRe2 s = Some g \<Longrightarrow> \<exists>c cs. g = Some (c # cs) \<and> isDigit c"
    unfolding eq by (rule match_digit_first[OF passes_scorePre2 passes_opt[OF passes_fraction]])
qed

lemma scoreRe3_digit: "match scoreRe3 s = Some g \<Longrightarrow> \<exists>c cs. g = Some (c # cs) \<and> isDigit c"
proof -
  have eq: "scoreRe3 = (\<lambda>k. k) \<circ> grp (rep1 isDigit \<circ> opt (lit ''.'' \<circ> rep1 isDigit))"
    unfolding scoreRe3_def numberRe_def by (rule ext) simp
  show "match scoreRe3 s = Some g \<Longrightarrow> \<exists>c cs. g = Some (c # cs) \<and> isDigit c"
    unfolding eq by (rule match_digit_first[OF passes_id passes_opt[OF passes_fraction]])
qed

lemma scoreRe4_digit: "match scoreRe4 s = Some g \<Longrightarrow> \<exists>c cs. g = Some (c # cs) \<and> isDigit c"
proof -
  have eq: "scoreRe4 = (\<lambda>k. k) \<circ> grp (rep1 isDigit \<circ> (lit ''.'' \<circ> rep1 isDigit))"
    unfolding scoreRe4_def by (simp add: comp_assoc fun_eq_iff)
  show "match scoreRe4 s = Some g \<Longrightarrow> \<exists>c cs. g = Some (c # cs) \<and> isDigit c"
    unfolding eq by (rule match_digit_first[OF passes_id passes_fraction])
qed

lemma scoreMatch_digit: 
  assumes "scoreMatch s = Some g" 
  shows "\<exists>c cs. g = Some (c # cs) \<and> isDigit c"
proof -
  from assms consider "match scoreRe1 s = Some g" | "match scoreRe2 s = Some g"
    | "match scoreRe3 s = Some g" | "match scoreRe4 s = Some g"
    unfolding scoreMatch_def by (auto split: option.splits)
  then show ?thesis
    by cases (auto dest: scoreRe1_digit scoreRe2_digit scoreRe3_digit scoreRe4_digit)
qed

section \<open>The completion score stays between 0 and 1\<close>

lemma parseFloat_digit:
  assumes "isDigit c"
  shows "\<exists>v. parseFloat (c # cs) = Num v \<and> 0 \<le> v"
proof -
  have "takeWhile isDigit (c # cs) \<noteq> []" using assms by simp
  then show ?thesis
    unfolding parseFloat_def Let_def by (simp del: takeWhile.simps)
qed

lemma normalizeScore_Num:
  "normalizeScore (Num v) =
     Num (if 0 \<le> v \<and> v \<le> 1 then v else if 1 < v \<and> v \<le> 10 then v / 10
          else if 10 < v \<and> v \<le> 100 then v / 100 else min (v / 10) 1)"
  by (simp add: normalizeScore_def)

lemma normalizeScore_range:
  assumes "0 \<le> v"
  shows "\<exists>r. normalizeScore (Num v) = Num r \<and> 0 \<le> r \<and> r \<le> 1"
  unfolding normalizeScore_Num using assms by auto

lemma fallbackScore_Num:
  "fallbackScore st =
     Num (max 0 (min 1 (of_nat (presentFields st) / 8 - of_nat (length (missingClauses st)) * (1/10))))"
  by (simp add: fallbackScore_def)

lemma section8_scoreOk: 
  assumes "scoreOk st" 
  shows "scoreOk (section8 st s)"
proof (cases "startsWith ''8.'' s")
  case False
  with assms show ?thesis by (simp add: section8_def)
next
  case True
  show ?thesis
  proof (cases "scoreMatch s")
    case None
    with True show ?thesis
      by (simp add: section8_def scoreOk_def fallbackScore_Num)
  next
    case (Some g)
    from scoreMatch_digit[OF this] obtain c cs where g: "g = Some (c # cs)" and c: "isDigit c"
      by blast
    from parseFloat_digit[OF c, of cs] obtain v where v: "parseFloat (c # cs) = Num v" "0 \<le> v"
      by blast
    from normalizeScore_range[OF v(2)] v(1) True Some g show ?thesis
      by (auto simp: section8_def scoreOk_def)
  qed
qed

lemma completionScore_others [simp]:
  "completionScore (section2 st s) = completionScore st"
  "completionScore (section3 st s) = completionScore st"
  "completionScore (section4 st s) = completionScore st"
  "completionScore (section5 st s) = completionScore st"
  "completionScore (section6 st s) = completionScore st"
  "completionScore (section7 st s) = completionScore st"
  "completionScore (section9 st s) = completionScore st"
  by (simp_all add: section2_def section3_def section4_def section5_def section6_def
      section7_def section9_def concerningStep_def riskFactorsStep_def explicitRisk_def Let_def
      split: option.splits)

lemma section8_other [simp]: "\<not> startsWith ''8.'' s \<Longrightarrow> section8 st s = st"
  by (simp add: section8_def)

lemma trim_nonempty: 
  assumes "startsWith (c # p) s" "\<not> isSpace c"
  shows "trim s \<noteq> []"
proof -
  from assms(1) obtain cs where s: "s = c # cs" by (cases s) auto
  have "dropWhile isSpace (rev cs @ [c]) \<noteq> []"
    using assms(2) by (simp add: dropWhile_eq_Nil_conv)
  then show ?thesis using assms(2) by (simp add: trim_def s)
qed

lemma trim_empty_not_section:
  assumes "trim s = []" 
  shows "\<not> startsWith ''8.'' s" "\<not> startsWith ''6.'' s"
  using assms trim_nonempty[of "CHR ''8''" "''.''" s] trim_nonempty[of "CHR ''6''" "''.''" s]
  by (auto simp: isSpace_def)

lemma processSection_completionScore:
  assumes "processSection st s = Inr st'"
  shows "\<exists>st0. completionScore st0 = completionScore st \<and>
           completionScore st' = completionScore (section8 st0 s)"
proof -
  from processSection_Inr[of st s] obtain d where
    "processSection st s = Inr (if trim s = [] then st
          else section9 (section8 (section7 (section6 (section5 (section4 (section3
                 (section2 (st\<lparr>documentType := d\<rparr>) s) s) s) s) s) s) s) s)"
    by blast
  with assms have st': "st' = (if trim s = [] then st
          else section9 (section8 (section7 (section6 (section5 (section4 (section3
                 (section2 (st\<lparr>documentType := d\<rparr>) s) s) s) s) s) s) s) s)"
    by simp
  show ?thesis
  proof (cases "trim s = []")
    case True
    then have "section8 st s = st" using trim_empty_not_section(1)[OF True] by simp
    moreover from True st' have "st' = st" by simp
    ultimately show ?thesis by (intro exI[of _ st]) simp
  next
    case False
    define st0 where "st0 = section7 (section6 (section5 (section4 (section3
                 (section2 (st\<lparr>documentType := d\<rparr>) s) s) s) s) s) s"
    from False st' have "st' = section9 (section8 st0 s) s" by (simp add: st0_def)
    then have "completionScore st' = completionScore (section8 st0 s)" by simp
    moreover have "completionScore st0 = completionScore st" by (simp add: st0_def)
    ultimately show ?thesis by blast
  qed
qed

lemma processSection_scoreOk:
  assumes "scoreOk st" "processSection st s = Inr st'"
  shows "scoreOk st'"
proof -
  from processSection_completionScore[OF assms(2)] obtain st0 where
    0: "completionScore st0 = completionScore st" "completionScore st' = completionScore (section8 st0 s)"
    by blast
  from assms(1) 0(1) have "scoreOk st0" by (simp add: scoreOk_def)
  from section8_scoreOk[OF this, of s] 0(2) show ?thesis by (simp add: scoreOk_def)
qed

lemma processSection_score_unchanged:
  assumes "\<not> startsWith ''8.'' s" "processSection st s = Inr st'"
  shows "completionScore st' = completionScore st"
  using processSection_completionScore[OF assms(2)] assms(1) by auto

lemma forEachSection_score_default:
  assumes "\<forall>s \<in> set ss. \<not> startsWith ''8.'' s" "forEachSection st ss = Inr st'"
  shows "completionScore st' = completionScore st"
  using assms
proof (induction ss arbitrary: st)
  case Nil
  then show ?case by simp
next
  case (Cons s ss)
  from processSection_Inr[of st s] obtain st1 where 1: "processSection st s = Inr st1" by blast
  with Cons.prems have "forEachSection st1 ss = Inr st'" by simp
  with Cons.IH[of st1] Cons.prems(1) have "completionScore st' = completionScore st1" by simp
  moreover from processSection_score_unchanged[OF _ 1] Cons.prems(1)
  have "completionScore st1 = completionScore st" by simp
  ultimately show ?case by simp
qed

lemma parse_completionScore:
  "\<exists>st. forEachSection defaults (sections input) = Inr st \<and>
     completionScore (parseGeminiResponse input) = completionScore st"
  using parse_eq[of input] by auto

text \<open>
  Claim C2. For every input string the completion score of the result is a number from
  0 to 1 inclusive: the score patterns capture unsigned numbers only, and every branch
  of the scaling and of the fallback ends in that interval. When no section starts
  with "8." nothing assigns the score and it is the default 0.5.
\<close>

theorem completionScore_in_unit_interval:
  "(\<exists>r. completionScore (parseGeminiResponse input) = Num r \<and> 0 \<le> r \<and> r \<le> 1)
   \<and> ((\<forall>s \<in> set (sections input). \<not> startsWith ''8.'' s) \<longrightarrow>
        completionScore (parseGeminiResponse input) = Num (1/2))"
proof -
  from parse_completionScore[of input] obtain st where
    f: "forEachSection defaults (sections input) = Inr st" and
    r: "completionScore (parseGeminiResponse input) = completionScore st"
    by blast
  have "scoreOk defaults" unfolding scoreOk_def defaults_def by (intro exI[of _ "1/2"]) simp
  from forEachSection_invariant[of scoreOk, OF this processSection_scoreOk f]
  have "scoreOk st" .
  moreover have "(\<forall>s \<in> set (sections input). \<not> startsWith ''8.'' s) \<longrightarrow>
        completionScore st = Num (1/2)"
  proof
    assume "\<forall>s \<in> set (sections input). \<not> startsWith ''8.'' s"
    from forEachSection_score_default[OF this f] show "completionScore st = Num (1/2)"
      by (simp add: defaults_def)
  qed
  ultimately show ?thesis unfolding r scoreOk_def by blast
qed

theorem completionScore_in_unit_interval_witness:
  "sections ''7. Missing:\<newline>- a\<newline>- b'' = [''7. Missing:\<newline>- a\<newline>- b'']
   \<and> startsWith ''8.'' ''7. Missing:\<newline>- a\<newline>- b'' = False
   \<and> completionScore (parseGeminiResponse ''7. Missing:\<newline>- a\<newline>- b'') = Num (1/2)"
proof -
  have h: "sections ''7. Missing:\<newline>- a\<newline>- b'' = [''7. Missing:\<newline>- a\<newline>- b'']"
    by code_simp
  from completionScore_in_unit_interval[of "''7. Missing:\<newline>- a\<newline>- b''"]
  show ?thesis unfolding h by simp
qed

section \<open>Section 8 always finds a number\<close>

lemma scoreRe3_section8:
  assumes "startsWith ''8.'' s"
  shows "\<exists>t. match scoreRe3 s = Some (Some (CHR ''8'' # t))"
proof -
  from assms obtain rest where s: "s = CHR ''8'' # CHR ''.'' # rest"
    by (cases s; cases "tl s") auto
  define k :: cont where
    "k = (\<lambda>st'. Some (fst st', Some (take (length s - length (fst st')) s)))"
  have m: "scoreRe3 Some (s, None) = opt (lit ''.'' \<circ> rep1 isDigit) k (CHR ''.'' # rest, None)"
    by (simp add: scoreRe3_def grp_def numberRe_def rep1_def k_def s isDigit_def)
  have "\<exists>st2. scoreRe3 Some (s, None) = Some st2 \<and> k st2 = Some st2 \<and> length (fst st2) \<le> Suc (length rest)"
  proof (cases "(lit ''.'' \<circ> rep1 isDigit) k (CHR ''.'' # rest, None)")
    case None
    then have "scoreRe3 Some (s, None) = k (CHR ''.'' # rest, None)"
      unfolding m by (simp add: opt_def)
    then show ?thesis by (simp add: k_def s)
  next
    case (Some r)
    then have 1: "scoreRe3 Some (s, None) = Some r" unfolding m by (simp add: opt_def)
    from passesD[OF passes_fraction Some] obtain st' where
      "k st' = Some r" "length (fst st') \<le> Suc (length rest)" by auto
    then show ?thesis using 1 by (auto simp: k_def)
  qed
  then obtain st2 where 2: "scoreRe3 Some (s, None) = Some st2" "k st2 = Some st2"
    "length (fst st2) \<le> Suc (length rest)" by blast
  from 2(3) have "length s - length (fst st2) = Suc (Suc (length rest) - length (fst st2))"
    by (simp add: s Suc_diff_le)
  with 2(2) have "snd st2 = Some (CHR ''8'' # take (Suc (length rest) - length (fst st2)) (CHR ''.'' # rest))"
    by (cases st2) (auto simp: k_def s)
  with 2(1) have "\<exists>w t. matchHere scoreRe3 s = Some (w, Some (CHR ''8'' # t))"
    by (cases st2) (auto simp: matchHere_def)
  then show ?thesis by (auto simp: match_def exec_def s)
qed

text \<open>
  Claim C10. A section that starts with the tag "8." is always matched by the third
  score pattern, which captures at least the digit 8 of the tag itself; so one of the
  score patterns matches, the score of the section is the scaled captured number, and
  the branch that computes the fallback from the present fields and the missing clauses
  is never entered.
\<close>

theorem section8_always_captures:
  assumes "startsWith ''8.'' s"
  shows "(\<exists>t. match scoreRe3 s = Some (Some (CHR ''8'' # t)))
    \<and> (\<exists>c cs. isDigit c \<and> scoreMatch s = Some (Some (c # cs))
          \<and> (\<forall>st. section8 st s = st\<lparr>completionScore := normalizeScore (parseFloat (c # cs))\<rparr>))"
proof -
  from scoreRe3_section8[OF assms] obtain t where 3: "match scoreRe3 s = Some (Some (CHR ''8'' # t))"
    by blast
  then have "scoreMatch s \<noteq> None" by (auto simp: scoreMatch_def split: option.splits)
  then obtain g where g: "scoreMatch s = Some g" by blast
  from scoreMatch_digit[OF g] obtain c cs where c: "g = Some (c # cs)" "isDigit c" by blast
  have "\<forall>st. section8 st s = st\<lparr>completionScore := normalizeScore (parseFloat (c # cs))\<rparr>"
    using assms g c(1) by (simp add: section8_def)
  with 3 g c show ?thesis by blast
qed

theorem section8_always_captures_witness:
  "startsWith ''8.'' ''8. Completion Score: not given''
   \<and> match scoreRe3 ''8. Completion Score: not given'' = Some (Some ''8'')
   \<and> section8 defaults ''8. Completion Score: not given'' = defaults\<lparr>completionScore := Num (8/10)\<rparr>"
proof -
  have h: "startsWith ''8.'' ''8. Completion Score: not given''" by simp
  have e: "match scoreRe3 ''8. Completion Score: not given'' = Some (Some ''8'')" 
    "scoreMatch ''8. Completion Score: not given'' = Some (Some ''8'')" 
    "normalizeScore (parseFloat ''8'') = Num (8/10)" by code_simp+
  from section8_always_captures[OF h] e h show ?thesis by auto
qed

section \<open>The scaling of the captured score\<close>

lemma star_stop: "s = [] \<or> \<not> P (hd s) \<Longrightarrow> star P k (s, g) = k (s, g)"
  by (cases s) auto

lemma canon_simps:
  "canonicalize CHR ''S'' = CHR ''S''" "canonicalize CHR ''s'' = CHR ''S''"
  "canonicalize CHR ''c'' = CHR ''C''" "canonicalize CHR ''o'' = CHR ''O''"
  "canonicalize CHR ''r'' = CHR ''R''" "canonicalize CHR ''e'' = CHR ''E''"
  "canonicalize CHR '':'' = CHR '':''" "canonicalize CHR '' '' = CHR '' ''"
  "canonicalize CHR ''8'' = CHR ''8''" "canonicalize CHR ''.'' = CHR ''.''"
  "canonicalize CHR ''C'' = CHR ''C''" "canonicalize CHR ''m'' = CHR ''M''"
  "canonicalize CHR ''p'' = CHR ''P''" "canonicalize CHR ''l'' = CHR ''L''"
  "canonicalize CHR ''t'' = CHR ''T''" "canonicalize CHR ''i'' = CHR ''I''"
  "canonicalize CHR ''n'' = CHR ''N''" "canonicalize CHR ''5'' = CHR ''5''"
  "canonicalize CHR ''7'' = CHR ''7''"
  by code_simp+

lemma scoreMatch_85:
  assumes "rest = [] \<or> (\<not> isDigit (hd rest) \<and> hd rest \<noteq> CHR ''.'')"
  shows "scoreMatch (''8. Completion Score: Score: 85'' @ rest) = Some (Some ''85'')"
proof -
  have 1: "star isDigit k (rest, g) = k (rest, g)" for k g
    using assms by (intro star_stop) auto
  have 3: "lit ''.'' k (rest, g) = None" for k g
    using assms by (cases rest) auto
  show ?thesis
    by (simp add: scoreMatch_def match_def exec_def matchHere_def scoreRe1_def numberRe_def
        grp_def rep1_def opt_def isDigit_def isSpace_def canon_simps 1 3 del: lit.simps)
qed

lemma scoreMatch_7:
  assumes "rest = [] \<or> (\<not> isDigit (hd rest) \<and> hd rest \<noteq> CHR ''.'')"
  shows "scoreMatch (''8. Completion Score: Score: 7'' @ rest) = Some (Some ''7'')"
proof -
  have 1: "star isDigit k (rest, g) = k (rest, g)" for k g
    using assms by (intro star_stop) auto
  have 3: "lit ''.'' k (rest, g) = None" for k g
    using assms by (cases rest) auto
  show ?thesis
    by (simp add: scoreMatch_def match_def exec_def matchHere_def scoreRe1_def numberRe_def
        grp_def rep1_def opt_def isDigit_def isSpace_def canon_simps 1 3 del: lit.simps)
qed

text \<open>
  A decimal after "Score:" never reaches the score patterns whole: the separator of the
  sections cuts the text before its integer digits, and the section that starts with
  "8." is left with the digit of its own tag.
\<close>

lemma decimal_score_is_cut:
  "sections ''8. Completion Score: Score: 0.7'' = [''8. Completion Score: Score: '', ''0.7'']
   \<and> scoreMatch ''8. Completion Score: Score: '' = Some (Some ''8'')
   \<and> completionScore (parseGeminiResponse ''8. Completion Score: Score: 0.7'') = Num (8/10)"
  by code_simp

lemma parseFloat_85: "parseFloat ''85'' = Num 85"
  by code_simp

lemma parseFloat_7: "parseFloat ''7'' = Num 7"
  by code_simp

text \<open>The scaling as the step of section 8 applies it, on any state.\<close>

lemma section8_scale:
  assumes "startsWith ''8.'' s" "scoreMatch s = Some (Some t)" "parseFloat t = Num v"
  shows "completionScore (section8 st s) =
     Num (if 0 \<le> v \<and> v \<le> 1 then v else if 1 < v \<and> v \<le> 10 then v / 10
          else if 10 < v \<and> v \<le> 100 then v / 100 else min (v / 10) 1)"
  using assms by (simp add: section8_def normalizeScore_Num)

text \<open>
  The score of the result is set by the last section that starts with "8.": the
  sections after it leave the score alone.
\<close>

lemma processSection_section8_score:
  assumes "startsWith ''8.'' s" "scoreMatch s = Some (Some t)" "processSection st s = Inr st'"
  shows "completionScore st' = normalizeScore (parseFloat t)"
proof -
  from processSection_completionScore[OF assms(3)] obtain st0 where
    "completionScore st' = completionScore (section8 st0 s)" by blast
  then show ?thesis using assms(1,2) by (simp add: section8_def)
qed

lemma forEachSection_last_section8:
  assumes "startsWith ''8.'' s" "\<forall>u \<in> set post. \<not> startsWith ''8.'' u"
    "scoreMatch s = Some (Some t)" "forEachSection st (pre @ s # post) = Inr st'"
  shows "completionScore st' = normalizeScore (parseFloat t)"
proof -
  from forEachSection_Inr[of st pre] obtain st1 where 1: "forEachSection st pre = Inr st1"
    by blast
  from processSection_Inr[of st1 s] obtain st2 where 2: "processSection st1 s = Inr st2"
    by blast
  from assms(4) 1 2 have 3: "forEachSection st2 post = Inr st'"
    by (simp add: forEachSection_append)
  from forEachSection_score_default[OF assms(2) 3]
    processSection_section8_score[OF assms(1,3) 2]
  show ?thesis by simp
qed

lemma parse_last_section8:
  assumes "sections input = pre @ s # post" "startsWith ''8.'' s"
    "\<forall>u \<in> set post. \<not> startsWith ''8.'' u" "scoreMatch s = Some (Some t)"
  shows "completionScore (parseGeminiResponse input) = normalizeScore (parseFloat t)"
proof -
  from parse_completionScore[of input] obtain st where
    f: "forEachSection defaults (sections input) = Inr st" and
    r: "completionScore (parseGeminiResponse input) = completionScore st"
    by blast
  from f assms(1) have "forEachSection defaults (pre @ s # post) = Inr st" by simp
  from forEachSection_last_section8[OF assms(2,3,4) this] r show ?thesis by simp
qed

lemma section8_token_exists:
  assumes "startsWith ''8.'' s"
  shows "\<exists>t v. scoreMatch s = Some (Some t) \<and> parseFloat t = Num v \<and> 0 \<le> v"
proof -
  from scoreRe3_section8[OF assms] have "scoreMatch s \<noteq> None"
    by (auto simp: scoreMatch_def split: option.splits)
  then obtain g where g: "scoreMatch s = Some g" by blast
  from scoreMatch_digit[OF g] obtain c cs where c: "g = Some (c # cs)" "isDigit c" by blast
  from parseFloat_digit[OF c(2), of cs] obtain v where "parseFloat (c # cs) = Num v" "0 \<le> v"
    by blast
  with g c(1) show ?thesis by blast
qed

lemma startsWith_append: "startsWith p (p @ r)"
  by (simp add: startsWith_iff)

text \<open>
  Claim C4. For every input, let \<open>s\<close> be the last of its sections that starts with
  "8.". A numeric token is captured in \<open>s\<close>, and with \<open>v\<close> the value of the token the
  completion score of the result is \<open>v\<close> itself for \<open>v\<close> in [0,1], \<open>v/10\<close> for \<open>v\<close> in
  (1,10], \<open>v/100\<close> for \<open>v\<close> in (10,100], and for a larger \<open>v\<close> it is \<open>v/10\<close> clamped to
  1, that is 1. In particular every input whose last section 8 is the text
  "8. Completion Score: Score: 85", followed by anything that does not go on with a
  digit or a dot, has the score 0.85, and with "Score: 7" the score 0.7, whatever
  sections stand before and after it; so do the inputs that consist of just these
  texts, and an input with a section 7 before and a section 9 after that section 8.
\<close>

theorem score_scale_normalization:
  "(sections input = pre @ s # post \<and> startsWith ''8.'' s
      \<and> (\<forall>u \<in> set post. \<not> startsWith ''8.'' u) \<longrightarrow>
      (\<exists>t v. scoreMatch s = Some (Some t) \<and> parseFloat t = Num v \<and> 0 \<le> v)
    \<and> (scoreMatch s = Some (Some t) \<and> parseFloat t = Num v \<longrightarrow>
          (0 \<le> v \<and> v \<le> 1 \<longrightarrow> completionScore (parseGeminiResponse input) = Num v)
        \<and> (1 < v \<and> v \<le> 10 \<longrightarrow>
              completionScore (parseGeminiResponse input) = Num (v / 10))
        \<and> (10 < v \<and> v \<le> 100 \<longrightarrow>
              completionScore (parseGeminiResponse input) = Num (v / 100))
        \<and> (100 < v \<longrightarrow>
              completionScore (parseGeminiResponse input) = Num (min (v / 10) 1)
            \<and> completionScore (parseGeminiResponse input) = Num 1)))
   \<and> ((sections input = pre @ (''8. Completion Score: Score: 85'' @ rest) # post
        \<or> sections input = pre @ (''8. Completion Score: Score: 7'' @ rest) # post)
      \<and> (\<forall>u \<in> set post. \<not> startsWith ''8.'' u)
      \<and> (rest = [] \<or> (\<not> isDigit (hd rest) \<and> hd rest \<noteq> CHR ''.'')) \<longrightarrow>
      (sections input = pre @ (''8. Completion Score: Score: 85'' @ rest) # post \<longrightarrow>
         completionScore (parseGeminiResponse input) = Num (85/100))
    \<and> (sections input = pre @ (''8. Completion Score: Score: 7'' @ rest) # post \<longrightarrow>
         completionScore (parseGeminiResponse input) = Num (7/10)))
   \<and> completionScore (parseGeminiResponse ''8. Completion Score: Score: 85'') = Num (85/100)
   \<and> completionScore (parseGeminiResponse ''8. Completion Score: Score: 7'') = Num (7/10)
   \<and> completionScore (parseGeminiResponse
        ''7. Missing:\<newline>- a\<newline>8. Completion Score: Score: 85\<newline>9. Summary:\<newline>- ok'')
       = Num (85/100)"
proof -
  have a: "completionScore (parseGeminiResponse ''8. Completion Score: Score: 85'') = Num (85/100)"
    by code_simp
  have b: "completionScore (parseGeminiResponse ''8. Completion Score: Score: 7'') = Num (7/10)"
    by code_simp
  have c: "completionScore (parseGeminiResponse
        ''7. Missing:\<newline>- a\<newline>8. Completion Score: Score: 85\<newline>9. Summary:\<newline>- ok'')
       = Num (85/100)"
    by code_simp
  have d: "sections input = pre @ s # post \<and> startsWith ''8.'' s
      \<and> (\<forall>u \<in> set post. \<not> startsWith ''8.'' u) \<longrightarrow>
      (\<exists>t v. scoreMatch s = Some (Some t) \<and> parseFloat t = Num v \<and> 0 \<le> v)
    \<and> (scoreMatch s = Some (Some t) \<and> parseFloat t = Num v \<longrightarrow>
          (0 \<le> v \<and> v \<le> 1 \<longrightarrow> completionScore (parseGeminiResponse input) = Num v)
        \<and> (1 < v \<and> v \<le> 10 \<longrightarrow>
              completionScore (parseGeminiResponse input) = Num (v / 10))
        \<and> (10 < v \<and> v \<le> 100 \<longrightarrow>
              completionScore (parseGeminiResponse input) = Num (v / 100))
        \<and> (100 < v \<longrightarrow>
              completionScore (parseGeminiResponse input) = Num (min (v / 10) 1)
            \<and> completionScore (parseGeminiResponse input) = Num 1))"
  proof (intro impI conjI)
    assume h: "sections input = pre @ s # post \<and> startsWith ''8.'' s
      \<and> (\<forall>u \<in> set post. \<not> startsWith ''8.'' u)"
    then show "\<exists>t v. scoreMatch s = Some (Some t) \<and> parseFloat t = Num v \<and> 0 \<le> v"
      using section8_token_exists by blast
    assume tv: "scoreMatch s = Some (Some t) \<and> parseFloat t = Num v"
    with h have e: "completionScore (parseGeminiResponse input) = normalizeScore (Num v)"
      using parse_last_section8[of input pre s post t] by simp
    { assume "0 \<le> v \<and> v \<le> 1"
      then show "completionScore (parseGeminiResponse input) = Num v"
        unfolding e normalizeScore_Num by simp }
    { assume "1 < v \<and> v \<le> 10"
      then show "completionScore (parseGeminiResponse input) = Num (v / 10)"
        unfolding e normalizeScore_Num by simp }
    { assume "10 < v \<and> v \<le> 100"
      then show "completionScore (parseGeminiResponse input) = Num (v / 100)"
        unfolding e normalizeScore_Num by simp }
    { assume "100 < v"
      then show "completionScore (parseGeminiResponse input) = Num (min (v / 10) 1)"
        unfolding e normalizeScore_Num by simp }
    { assume "100 < v"
      then show "completionScore (parseGeminiResponse input) = Num 1"
        unfolding e normalizeScore_Num by simp }
  qed
  have e: "(sections input = pre @ (''8. Completion Score: Score: 85'' @ rest) # post
        \<or> sections input = pre @ (''8. Completion Score: Score: 7'' @ rest) # post)
      \<and> (\<forall>u \<in> set post. \<not> startsWith ''8.'' u)
      \<and> (rest = [] \<or> (\<not> isDigit (hd rest) \<and> hd rest \<noteq> CHR ''.'')) \<longrightarrow>
      (sections input = pre @ (''8. Completion Score: Score: 85'' @ rest) # post \<longrightarrow>
         completionScore (parseGeminiResponse input) = Num (85/100))
    \<and> (sections input = pre @ (''8. Completion Score: Score: 7'' @ rest) # post \<longrightarrow>
         completionScore (parseGeminiResponse input) = Num (7/10))"
  proof (intro impI conjI)
    assume h: "(sections input = pre @ (''8. Completion Score: Score: 85'' @ rest) # post
        \<or> sections input = pre @ (''8. Completion Score: Score: 7'' @ rest) # post)
      \<and> (\<forall>u \<in> set post. \<not> startsWith ''8.'' u)
      \<and> (rest = [] \<or> (\<not> isDigit (hd rest) \<and> hd rest \<noteq> CHR ''.''))"
    then have p: "\<forall>u \<in> set post. \<not> startsWith ''8.'' u"
      and r: "rest = [] \<or> (\<not> isDigit (hd rest) \<and> hd rest \<noteq> CHR ''.'')" by blast+
    { assume s: "sections input = pre @ (''8. Completion Score: Score: 85'' @ rest) # post"
      have "startsWith ''8.'' (''8. Completion Score: Score: 85'' @ rest)" by simp
      from parse_last_section8[OF s this p scoreMatch_85[OF r]]
      show "completionScore (parseGeminiResponse input) = Num (85/100)"
        by (simp add: parseFloat_85 normalizeScore_Num) }
    { assume s: "sections input = pre @ (''8. Completion Score: Score: 7'' @ rest) # post"
      have "startsWith ''8.'' (''8. Completion Score: Score: 7'' @ rest)" by simp
      from parse_last_section8[OF s this p scoreMatch_7[OF r]]
      show "completionScore (parseGeminiResponse input) = Num (7/10)"
        by (simp add: parseFloat_7 normalizeScore_Num) }
  qed
  from a b c d e show ?thesis by blast
qed

theorem score_scale_normalization_witness:
  "sections ''7. Missing:\<newline>- a\<newline>8. Completion Score: Score: 250\<newline>9. Summary:\<newline>- ok''
     = [''7. Missing:\<newline>- a\<newline>''] @ ''8. Completion Score: Score: 250\<newline>''
         # [''9. Summary:\<newline>- ok'']
   \<and> startsWith ''8.'' ''8. Completion Score: Score: 250\<newline>''
   \<and> startsWith ''8.'' ''9. Summary:\<newline>- ok'' = False
   \<and> scoreMatch ''8. Completion Score: Score: 250\<newline>'' = Some (Some ''250'')
   \<and> parseFloat ''250'' = Num 250
   \<and> completionScore (parseGeminiResponse
        ''7. Missing:\<newline>- a\<newline>8. Completion Score: Score: 250\<newline>9. Summary:\<newline>- ok'')
       = Num 1
   \<and> sections ''7. Missing:\<newline>- a\<newline>8. Completion Score: Score: 7\<newline>9. Summary:\<newline>- ok''
     = [''7. Missing:\<newline>- a\<newline>''] @ (''8. Completion Score: Score: 7'' @ ''\<newline>'')
         # [''9. Summary:\<newline>- ok'']
   \<and> completionScore (parseGeminiResponse
        ''7. Missing:\<newline>- a\<newline>8. Completion Score: Score: 7\<newline>9. Summary:\<newline>- ok'')
       = Num (7/10)"
proof -
  have s1: "sections ''7. Missing:\<newline>- a\<newline>8. Completion Score: Score: 250\<newline>9. Summary:\<newline>- ok''
     = [''7. Missing:\<newline>- a\<newline>''] @ ''8. Completion Score: Score: 250\<newline>''
         # [''9. Summary:\<newline>- ok'']"
    by code_simp
  have s2: "sections ''7. Missing:\<newline>- a\<newline>8. Completion Score: Score: 7\<newline>9. Summary:\<newline>- ok''
     = [''7. Missing:\<newline>- a\<newline>''] @ (''8. Completion Score: Score: 7'' @ ''\<newline>'')
         # [''9. Summary:\<newline>- ok'']"
    by code_simp
  have h: "startsWith ''8.'' ''8. Completion Score: Score: 250\<newline>''"
    "startsWith ''8.'' ''9. Summary:\<newline>- ok'' = False"
    "scoreMatch ''8. Completion Score: Score: 250\<newline>'' = Some (Some ''250'')"
    "parseFloat ''250'' = Num 250"
    by code_simp+
  have p: "\<forall>u \<in> set [''9. Summary:\<newline>- ok'']. \<not> startsWith ''8.'' u" by simp
  have r: "''\<newline>'' = [] \<or> (\<not> isDigit (hd ''\<newline>'') \<and> hd ''\<newline>'' \<noteq> CHR ''.'')"
    by (simp add: isDigit_def)
  have 1: "completionScore (parseGeminiResponse
        ''7. Missing:\<newline>- a\<newline>8. Completion Score: Score: 250\<newline>9. Summary:\<newline>- ok'')
       = Num 1"
    using score_scale_normalization[of
        "''7. Missing:\<newline>- a\<newline>8. Completion Score: Score: 250\<newline>9. Summary:\<newline>- ok''"
        "[''7. Missing:\<newline>- a\<newline>'']" "''8. Completion Score: Score: 250\<newline>''"
        "[''9. Summary:\<newline>- ok'']" "''250''" 250 "[]"] s1 h p
    by simp
  have 2: "completionScore (parseGeminiResponse
        ''7. Missing:\<newline>- a\<newline>8. Completion Score: Score: 7\<newline>9. Summary:\<newline>- ok'')
       = Num (7/10)"
    using score_scale_normalization[of
        "''7. Missing:\<newline>- a\<newline>8. Completion Score: Score: 7\<newline>9. Summary:\<newline>- ok''"
        "[''7. Missing:\<newline>- a\<newline>'']" "''8. Completion Score: Score: 7\<newline>''"
        "[''9. Summary:\<newline>- ok'']" "''7''" 7 "''\<newline>''"] s2 p r
    by simp
  from s1 s2 h 1 2 show ?thesis by blast
qed

section \<open>The score without a section 8\<close>

text \<open>
  The claim C5 as stated fails: an input without section 8, with the six tracked fields
  empty and two missing clauses, has the score 0.5 and not 0.
\<close>

theorem no_section8_keeps_default_counterexample:
  "sections ''7. Missing or Unclear Elements:\<newline>- a\<newline>- b'' = [''7. Missing or Unclear Elements:\<newline>- a\<newline>- b'']
   \<and> parties (parseGeminiResponse ''7. Missing or Unclear Elements:\<newline>- a\<newline>- b'') = []
   \<and> dates (parseGeminiResponse ''7. Missing or Unclear Elements:\<newline>- a\<newline>- b'') = []
   \<and> keyTerms (parseGeminiResponse ''7. Missing or Unclear Elements:\<newline>- a\<newline>- b'') = []
   \<and> riskFactors (parseGeminiResponse ''7. Missing or Unclear Elements:\<newline>- a\<newline>- b'') = []
   \<and> paymentTerms (parseGeminiResponse ''7. Missing or Unclear Elements:\<newline>- a\<newline>- b'') = []
   \<and> summary (parseGeminiResponse ''7. Missing or Unclear Elements:\<newline>- a\<newline>- b'') = []
   \<and> missingClauses (parseGeminiResponse ''7. Missing or Unclear Elements:\<newline>- a\<newline>- b'') = [''a'', ''b'']
   \<and> completionScore (parseGeminiResponse ''7. Missing or Unclear Elements:\<newline>- a\<newline>- b'') = Num (1/2)
   \<and> completionScore (parseGeminiResponse ''7. Missing or Unclear Elements:\<newline>- a\<newline>- b'') \<noteq> Num 0"
  by code_simp

lemma presentFields_le: "presentFields st \<le> 6"
  by (simp add: presentFields_def)

text \<open>
  Claim C5, amended. For an input with no section that starts with "8.", the completion
  score keeps its default 0.5, whatever the other fields are. The fallback formula (the
  number of the 6 tracked fields that are not empty, divided by 8, minus 0.1 for each
  missing clause, clamped to [0,1]) belongs to the branch of section 8; on a state where
  the six fields are empty and there are 2 missing clauses it gives
  max(0, 0/8 - 0.2) = 0.
\<close>

theorem no_section8_keeps_default:
  "((\<forall>s \<in> set (sections input). \<not> startsWith ''8.'' s) \<longrightarrow>
        completionScore (parseGeminiResponse input) = Num (1/2))
   \<and> presentFields st \<le> 6
   \<and> fallbackScore st = Num (max 0 (min 1
        (of_nat (presentFields st) / 8 - of_nat (length (missingClauses st)) * (1/10))))
   \<and> (parties st = [] \<and> dates st = [] \<and> keyTerms st = [] \<and> riskFactors st = []
        \<and> paymentTerms st = [] \<and> summary st = [] \<and> length (missingClauses st) = 2 \<longrightarrow>
        presentFields st = 0 \<and> fallbackScore st = Num 0)"
proof -
  from parse_completionScore[of input] obtain st' where
    f: "forEachSection defaults (sections input) = Inr st'" and
    r: "completionScore (parseGeminiResponse input) = completionScore st'"
    by blast
  have 1: "(\<forall>s \<in> set (sections input). \<not> startsWith ''8.'' s) \<longrightarrow>
        completionScore (parseGeminiResponse input) = Num (1/2)"
  proof
    assume "\<forall>s \<in> set (sections input). \<not> startsWith ''8.'' s"
    from forEachSection_score_default[OF this f]
    show "completionScore (parseGeminiResponse input) = Num (1/2)"
      by (simp add: defaults_def r)
  qed
  have 2: "parties st = [] \<and> dates st = [] \<and> keyTerms st = [] \<and> riskFactors st = []
        \<and> paymentTerms st = [] \<and> summary st = [] \<and> length (missingClauses st) = 2 \<longrightarrow>
        presentFields st = 0 \<and> fallbackScore st = Num 0"
    by (simp add: fallbackScore_Num presentFields_def)
  from 1 2 presentFields_le[of st] fallbackScore_Num[of st] show ?thesis by blast
qed

theorem no_section8_keeps_default_witness:
  "sections ''7. Missing or Unclear Elements:\<newline>- a\<newline>- b''
     = [''7. Missing or Unclear Elements:\<newline>- a\<newline>- b'']
   \<and> startsWith ''8.'' ''7. Missing or Unclear Elements:\<newline>- a\<newline>- b'' = False
   \<and> completionScore (parseGeminiResponse
        ''7. Missing or Unclear Elements:\<newline>- a\<newline>- b'') = Num (1/2)
   \<and> length (missingClauses (defaults\<lparr>missingClauses := [''a'', ''b'']\<rparr>)) = 2
   \<and> fallbackScore (defaults\<lparr>missingClauses := [''a'', ''b'']\<rparr>) = Num 0"
proof -
  have h: "sections ''7. Missing or Unclear Elements:\<newline>- a\<newline>- b''
     = [''7. Missing or Unclear Elements:\<newline>- a\<newline>- b'']"
    by code_simp
  from no_section8_keeps_default[of
      "''7. Missing or Unclear Elements:\<newline>- a\<newline>- b''"
      "defaults\<lparr>missingClauses := [''a'', ''b'']\<rparr>"]
  show ?thesis unfolding h by (simp add: defaults_def)
qed

section \<open>The risk level\<close>

lemma riskLevel_others [simp]:
  "riskLevel (section2 st s) = riskLevel st"
  "riskLevel (section3 st s) = riskLevel st"
  "riskLevel (section4 st s) = riskLevel st"
  "riskLevel (section5 st s) = riskLevel st"
  "riskLevel (section7 st s) = riskLevel st"
  "riskLevel (section8 st s) = riskLevel st"
  "riskLevel (section9 st s) = riskLevel st"
  by (simp_all add: section2_def section3_def section4_def section5_def section7_def
      section8_def section9_def Let_def split: option.splits)

lemma concerningStep_upgrade:
  assumes "concerningSection s = Some cs" "cs \<noteq> []" "3 < length (extractListItems cs)"
  shows "riskLevel (concerningStep st s) = Some ''High''"
  using assms by (simp add: concerningStep_def Let_def)

lemma concerningStep_only_upgrades:
  "riskLevel (concerningStep st s) = riskLevel st \<or> riskLevel (concerningStep st s) = Some ''High''"
  by (simp add: concerningStep_def Let_def split: option.splits)

lemma processSection_riskLevel:
  assumes "processSection st s = Inr st'"
  shows "\<exists>st0. riskLevel st0 = riskLevel st \<and> riskLevel st' = riskLevel (section6 st0 s)"
proof -
  from processSection_Inr[of st s] obtain d where
    "processSection st s = Inr (if trim s = [] then st
          else section9 (section8 (section7 (section6 (section5 (section4 (section3
                 (section2 (st\<lparr>documentType := d\<rparr>) s) s) s) s) s) s) s) s)"
    by blast
  with assms have st': "st' = (if trim s = [] then st
          else section9 (section8 (section7 (section6 (section5 (section4 (section3
                 (section2 (st\<lparr>documentType := d\<rparr>) s) s) s) s) s) s) s) s)"
    by simp
  show ?thesis
  proof (cases "trim s = []")
    case True
    then have "section6 st s = st" using trim_empty_not_section(2)[OF True]
      by (simp add: section6_def)
    moreover from True st' have "st' = st" by simp
    ultimately show ?thesis by (intro exI[of _ st]) simp
  next
    case False
    define st0 where "st0 = section5 (section4 (section3
                 (section2 (st\<lparr>documentType := d\<rparr>) s) s) s) s"
    from False st' have "st' = section9 (section8 (section7 (section6 st0 s) s) s) s"
      by (simp add: st0_def)
    then have "riskLevel st' = riskLevel (section6 st0 s)" by simp
    moreover have "riskLevel st0 = riskLevel st" by (simp add: st0_def)
    ultimately show ?thesis by blast
  qed
qed

lemma processSection_risk_unchanged:
  assumes "\<not> startsWith ''6.'' s" "processSection st s = Inr st'"
  shows "riskLevel st' = riskLevel st"
  using processSection_riskLevel[OF assms(2)] assms(1) by (auto simp: section6_def)

lemma processSection_risk_upgrade:
  assumes "startsWith ''6.'' s" "concerningSection s = Some cs" "cs \<noteq> []"
    "3 < length (extractListItems cs)" "processSection st s = Inr st'"
  shows "riskLevel st' = Some ''High''"
proof -
  from processSection_riskLevel[OF assms(5)] obtain st0 where
    "riskLevel st' = riskLevel (section6 st0 s)" by blast
  then show ?thesis
    using assms(1) concerningStep_upgrade[OF assms(2,3,4)] by (simp add: section6_def)
qed

lemma forEachSection_risk_unchanged:
  assumes "\<forall>s \<in> set ss. \<not> startsWith ''6.'' s" "forEachSection st ss = Inr st'"
  shows "riskLevel st' = riskLevel st"
  using assms
proof (induction ss arbitrary: st)
  case Nil
  then show ?case by simp
next
  case (Cons s ss)
  from processSection_Inr[of st s] obtain st1 where 1: "processSection st s = Inr st1" by blast
  with Cons.prems have "forEachSection st1 ss = Inr st'" by simp
  with Cons.IH[of st1] Cons.prems(1) have "riskLevel st' = riskLevel st1" by simp
  moreover from processSection_risk_unchanged[OF _ 1] Cons.prems(1)
  have "riskLevel st1 = riskLevel st" by simp
  ultimately show ?case by simp
qed

lemma forEachSection_last_section6:
  assumes "startsWith ''6.'' s" "\<forall>t \<in> set post. \<not> startsWith ''6.'' t"
    "concerningSection s = Some cs" "cs \<noteq> []" "3 < length (extractListItems cs)"
    "forEachSection st (pre @ s # post) = Inr st'"
  shows "riskLevel st' = Some ''High''"
proof -
  from forEachSection_Inr[of st pre] obtain st1 where 1: "forEachSection st pre = Inr st1"
    by blast
  from processSection_Inr[of st1 s] obtain st2 where 2: "processSection st1 s = Inr st2"
    by blast
  from assms(6) 1 2 have 3: "forEachSection st2 post = Inr st'"
    by (simp add: forEachSection_append)
  from forEachSection_risk_unchanged[OF assms(2) 3]
    processSection_risk_upgrade[OF assms(1,3,4,5) 2]
  show ?thesis by simp
qed

text \<open>
  The claim C1 as stated fails on its own example: the text of scenario A is a single
  line, so the text after "Concerning Elements:" is one bullet item, not four, and the
  explicit level "Low" stays.
\<close>

theorem scenario_A_single_line_stays_Low:
  "concerningPoints (parseGeminiResponse
    ''6. Risk Assessment: Risk Level: Low Risk Factors: - a - b - c - d - e - f Concerning Elements: - x - y - z - w'')
     = [''x - y - z - w'']
   \<and> riskLevel (parseGeminiResponse
    ''6. Risk Assessment: Risk Level: Low Risk Factors: - a - b - c - d - e - f Concerning Elements: - x - y - z - w'')
     = Some ''Low''"
  by code_simp

text \<open>
  Claim C1, amended. Bullet items are lines. For every input, if the last section that
  starts with "6." has a non-empty text after its "Concerning Elements" marker and that
  text yields more than 3 bullet lines, the risk level of the result is "High", whatever
  "Risk Level:" token the section holds. The rule only upgrades: the step that applies
  it leaves the risk level as it was or sets it to "High".
\<close>

theorem last_section6_upgrade:
  "(sections input = pre @ s # post \<and> startsWith ''6.'' s
      \<and> (\<forall>t \<in> set post. \<not> startsWith ''6.'' t)
      \<and> concerningSection s = Some cs \<and> cs \<noteq> [] \<and> 3 < length (extractListItems cs)
     \<longrightarrow> riskLevel (parseGeminiResponse input) = Some ''High'')
   \<and> (riskLevel (concerningStep st s') = riskLevel st
        \<or> riskLevel (concerningStep st s') = Some ''High'')"
proof -
  from parse_eq[of input] obtain st' where
    f: "forEachSection defaults (sections input) = Inr st'" and
    r: "riskLevel (parseGeminiResponse input) = riskLevel st'"
    by auto
  have "sections input = pre @ s # post \<and> startsWith ''6.'' s
      \<and> (\<forall>t \<in> set post. \<not> startsWith ''6.'' t)
      \<and> concerningSection s = Some cs \<and> cs \<noteq> [] \<and> 3 < length (extractListItems cs)
     \<longrightarrow> riskLevel (parseGeminiResponse input) = Some ''High''"
  proof
    assume a: "sections input = pre @ s # post \<and> startsWith ''6.'' s
      \<and> (\<forall>t \<in> set post. \<not> startsWith ''6.'' t)
      \<and> concerningSection s = Some cs \<and> cs \<noteq> [] \<and> 3 < length (extractListItems cs)"
    with f have "forEachSection defaults (pre @ s # post) = Inr st'" by simp
    from forEachSection_last_section6[OF _ _ _ _ _ this, of cs] a r
    show "riskLevel (parseGeminiResponse input) = Some ''High''" by simp
  qed
  with concerningStep_only_upgrades[of st s'] show ?thesis by blast
qed

theorem last_section6_upgrade_witness:
  "sections ''6. Risk Assessment:\<newline>- Risk Level: Low\<newline>- Risk Factors:\<newline>- a\<newline>- Concerning Elements:\<newline>- x\<newline>- y\<newline>- z\<newline>- w''
     = [] @ ''6. Risk Assessment:\<newline>- Risk Level: Low\<newline>- Risk Factors:\<newline>- a\<newline>- Concerning Elements:\<newline>- x\<newline>- y\<newline>- z\<newline>- w'' # []
   \<and> startsWith ''6.'' ''6. Risk Assessment:\<newline>- Risk Level: Low\<newline>- Risk Factors:\<newline>- a\<newline>- Concerning Elements:\<newline>- x\<newline>- y\<newline>- z\<newline>- w''
   \<and> concerningSection ''6. Risk Assessment:\<newline>- Risk Level: Low\<newline>- Risk Factors:\<newline>- a\<newline>- Concerning Elements:\<newline>- x\<newline>- y\<newline>- z\<newline>- w''
       = Some ''\<newline>- x\<newline>- y\<newline>- z\<newline>- w''
   \<and> extractListItems ''\<newline>- x\<newline>- y\<newline>- z\<newline>- w'' = [''x'', ''y'', ''z'', ''w'']
   \<and> match riskRe ''6. Risk Assessment:\<newline>- Risk Level: Low\<newline>- Risk Factors:\<newline>- a\<newline>- Concerning Elements:\<newline>- x\<newline>- y\<newline>- z\<newline>- w''
       = Some (Some ''Low'')
   \<and> riskLevel (parseGeminiResponse ''6. Risk Assessment:\<newline>- Risk Level: Low\<newline>- Risk Factors:\<newline>- a\<newline>- Concerning Elements:\<newline>- x\<newline>- y\<newline>- z\<newline>- w'')
       = Some ''High''"
proof -
  have h: "sections ''6. Risk Assessment:\<newline>- Risk Level: Low\<newline>- Risk Factors:\<newline>- a\<newline>- Concerning Elements:\<newline>- x\<newline>- y\<newline>- z\<newline>- w''
     = [] @ ''6. Risk Assessment:\<newline>- Risk Level: Low\<newline>- Risk Factors:\<newline>- a\<newline>- Concerning Elements:\<newline>- x\<newline>- y\<newline>- z\<newline>- w'' # []"
   "startsWith ''6.'' ''6. Risk Assessment:\<newline>- Risk Level: Low\<newline>- Risk Factors:\<newline>- a\<newline>- Concerning Elements:\<newline>- x\<newline>- y\<newline>- z\<newline>- w''"
   "concerningSection ''6. Risk Assessment:\<newline>- Risk Level: Low\<newline>- Risk Factors:\<newline>- a\<newline>- Concerning Elements:\<newline>- x\<newline>- y\<newline>- z\<newline>- w''
       = Some ''\<newline>- x\<newline>- y\<newline>- z\<newline>- w''"
   "extractListItems ''\<newline>- x\<newline>- y\<newline>- z\<newline>- w'' = [''x'', ''y'', ''z'', ''w'']"
   "match riskRe ''6. Risk Assessment:\<newline>- Risk Level: Low\<newline>- Risk Factors:\<newline>- a\<newline>- Concerning Elements:\<newline>- x\<newline>- y\<newline>- z\<newline>- w''
       = Some (Some ''Low'')"
    by code_simp+
  have p: "\<forall>t \<in> set ([]::string list). \<not> startsWith ''6.'' t" by simp
  from h p last_section6_upgrade[of "''6. Risk Assessment:\<newline>- Risk Level: Low\<newline>- Risk Factors:\<newline>- a\<newline>- Concerning Elements:\<newline>- x\<newline>- y\<newline>- z\<newline>- w''"
      "[]" "''6. Risk Assessment:\<newline>- Risk Level: Low\<newline>- Risk Factors:\<newline>- a\<newline>- Concerning Elements:\<newline>- x\<newline>- y\<newline>- z\<newline>- w''"
      "[]" "''\<newline>- x\<newline>- y\<newline>- z\<newline>- w''"]
  show ?thesis by simp
qed

text \<open>
  Claim C3 (every result has the risk level "Low", "Medium" or "High") is what the type
  \<^verbatim>\<open>'Low' | 'Medium' | 'High'\<close> of the result and the assertion at line 332 say. The
  code assigns the text captured under the \<^verbatim>\<open>i\<close> flag as it stands, so a token in
  another case comes out unchanged.
\<close>

theorem riskLevel_keeps_case_of_token:
  "riskLevel (parseGeminiResponse ''6. Risk Level: low'') = Some ''low''
   \<and> riskLevel (parseGeminiResponse ''6. Risk Level: low'') \<noteq> Some ''Low''
   \<and> riskLevel (parseGeminiResponse ''6. Risk Level: low'') \<noteq> Some ''Medium''
   \<and> riskLevel (parseGeminiResponse ''6. Risk Level: low'') \<noteq> Some ''High''"
  by code_simp

section \<open>The dates\<close>

text \<open>
  What the loop over the date items stores: an item without a colon changes nothing; for
  an item whose label and value are not blank, the label is the text before the first
  colon and the value the text between the first and the second colon (or up to the end
  when there is no second colon), both trimmed; the entry replaces an earlier one with
  the same label.
\<close>

lemma splitOn_char_none: "c \<notin> set s \<Longrightarrow> splitOn [c] cur s = [cur @ s]"
  by (induction s arbitrary: cur) auto

lemma splitOn_char_first:
  "c \<notin> set k \<Longrightarrow> splitOn [c] cur (k @ c # v) = (cur @ k) # splitOn [c] [] v"
  by (induction k arbitrary: cur) auto

lemma splitStr_colon:
  assumes "CHR '':'' \<notin> set k" "CHR '':'' \<notin> set v" "rest = [] \<or> hd rest = CHR '':''"
  shows "\<exists>more. splitStr '':'' (k @ '':'' @ v @ rest) = k # v # more"
proof (cases rest)
  case Nil
  then show ?thesis
    using assms(1,2) by (simp add: splitStr_def splitOn_char_first splitOn_char_none)
next
  case (Cons c rest')
  with assms(3) have "rest = CHR '':'' # rest'" by simp
  then show ?thesis
    using assms(1,2) by (simp add: splitStr_def splitOn_char_first)
qed

lemma includesStr_colon: "includesStr '':'' (k @ '':'' @ r)"
  unfolding includesStr_iff by blast

lemma addDate_no_colon: "\<not> includesStr '':'' item \<Longrightarrow> addDate d item = d"
  by (simp add: addDate_def)

lemma addDate_value:
  assumes "CHR '':'' \<notin> set k" "CHR '':'' \<notin> set v" "rest = [] \<or> hd rest = CHR '':''"
    and "trim k \<noteq> []" "trim v \<noteq> []" "trim k \<noteq> ''__proto__''"
  shows "map_of (addDate d (k @ '':'' @ v @ rest)) (trim k) = Some (trim v)"
proof -
  from splitStr_colon[OF assms(1,2,3)] obtain more where
    "splitStr '':'' (k @ '':'' @ v @ rest) = k # v # more" by blast
  moreover have "includesStr '':'' (k @ '':'' @ v @ rest)" by (rule includesStr_colon)
  ultimately have "addDate d (k @ '':'' @ v @ rest) = AList.update (trim k) (trim v) d"
    using assms(4,5,6) by (simp add: addDate_def setKey_def Let_def)
  then show ?thesis by (simp add: update_conv')
qed

text \<open>
  Claim C7 takes the value of a date item to be everything after its first colon. The
  code splits the item at every colon and keeps the first two pieces, so a value that
  holds a colon is cut at it.
\<close>

theorem date_value_cut_at_second_colon:
  "dates (parseGeminiResponse ''3. Important Dates:\<newline>- Signing Time: 10:30 AM'')
     = [(''Signing Time'', ''10'')]"
  by code_simp

section \<open>The document type\<close>

text \<open>
  Claim C6 has the purpose clause stripped from the captured type, so that scenario E
  gives "Employment Agreement". The clean-up of the code removes the words
  "and Purpose:" themselves and keeps the purpose text that follows them, joined to the
  type without a space.
\<close>

theorem purpose_label_removed_text_kept:
  "typeMatch ''1. Document Type and Purpose: Type: Employment Agreement and Purpose: to define terms''
     = Some (Some ''Employment Agreement and Purpose: to define terms'')
   \<and> replaceFirst andPurposeRe ''Employment Agreement and Purpose: to define terms''
     = ''Employment Agreementto define terms''
   \<and> documentType (parseGeminiResponse
        ''1. Document Type and Purpose: Type: Employment Agreement and Purpose: to define terms'')
     = ''Employment Agreementto define terms''"
  by code_simp

end
